theory Spec2Isabelle
  imports Complex_Main
begin

section \<open>FeReader: the viewer state of \<open>FeReaderWindow\<close> (main.py)\<close>

text \<open>
  The window object is modelled as a record of the fields its handlers read and write.
  Every handler is a function from the window before the call to the window after it.
  A Python exception that leaves a handler is the \<open>Inl\<close> branch of a sum.
  Python floats (\<open>current_zoom\<close>) are modelled by exact rationals; the handlers only
  add a constant to them, compare them with constants and truncate products. The source
  computes with doubles, so where the exact product is an integer the truncated double
  can be one less: \<open>int(800 * 1.15)\<close> is 919 in the source and 920 here, and
  \<open>int(25 * (116 / 100.0))\<close> is 28 in the source and 29 here. The zoom factor, the sizes
  of scaled images and the font size computed from a percentage are therefore exact only
  up to this rounding; the properties below rest on the bounds, the flags, the indices
  and the counts.
\<close>

subsection \<open>Data\<close>

datatype py_error =
    IndexError
  | ZeroDivisionError
  | EngineError
  | NoSectionError
  | InterpolationSyntaxError
  | InterpolationMissingOptionError
  | InterpolationDepthError

text \<open>A \<open>QImage\<close> is its width and height.\<close>

type_synonym qimage = "int \<times> int"

text \<open>
  \<open>self.pages\<close> holds page numbers for a PDF (\<open>self.pages.append(len(self.pages))\<close>)
  and HTML strings for an EPUB.
\<close>

datatype page = PdfPage nat | HtmlPage string

text \<open>What \<open>_update_view\<close> last put on the central stack.\<close>

datatype display =
    Blank
  | ShowNoDocument
  | ShowHtml page int
  | ShowImage qimage
  | ShowCleared
  | ShowMulti

record win =
  current_book_type :: "string option"
  current_book_path :: "string option"
  current_book_title :: string
  pages :: "page list"
  current_index :: int
  base_font_size :: int
  current_font_size :: int
  current_zoom :: rat
  pdf_images :: "qimage list"
  view_mode :: string
  continuous_needs_build :: bool
  font_family :: string
  theme :: string
  language :: string
  multi_layout :: "qimage list"
  build_count :: nat
  shown :: display

text \<open>
  \<open>multi_layout\<close> is the list of labels in \<open>self.multi_layout\<close>, each by the size
  requested for it. \<open>build_count\<close> is not a field of the source: it counts the calls
  of \<open>_build_continuous_pdf_widgets\<close>, so that "no rebuild" can be told from
  "a rebuild with the same result".
\<close>

subsection \<open>Python helpers\<close>

text \<open>\<open>int(x)\<close> of a float truncates towards zero.\<close>

definition py_int :: "rat \<Rightarrow> int" where
  "py_int r = (if r < 0 then - \<lfloor>- r\<rfloor> else \<lfloor>r\<rfloor>)"

text \<open>
  \<open>xs[i]\<close> on a list of length \<open>n\<close>: the element at \<open>i\<close> for \<open>0 \<le> i < n\<close>, the element
  at \<open>n + i\<close> for \<open>-n \<le> i < 0\<close>, and \<open>IndexError\<close> otherwise.
\<close>

definition py_getitem :: "'a list \<Rightarrow> int \<Rightarrow> py_error + 'a" where
  "py_getitem xs i =
     (if 0 \<le> i \<and> i < int (length xs) then Inr (xs ! nat i)
      else if i < 0 \<and> - int (length xs) \<le> i then Inr (xs ! nat (int (length xs) + i))
      else Inl IndexError)"

text \<open>
  \<open>QInputDialog.getInt(..., min=lo, max=hi)\<close> is a spin box of the GUI toolkit: whatever
  the user types, the value it returns lies between \<open>lo\<close> and \<open>hi\<close>.
\<close>

definition QInputDialog_getInt :: "int \<Rightarrow> int \<Rightarrow> int \<Rightarrow> int" where
  "QInputDialog_getInt typed lo hi = max lo (min hi typed)"

subsection \<open>Rendering\<close>

definition scale_image :: "rat \<Rightarrow> qimage \<Rightarrow> qimage" where
  "scale_image zoom img = (py_int (of_int (fst img) * zoom), py_int (of_int (snd img) * zoom))"

definition build_continuous_pdf_widgets :: "win \<Rightarrow> win" where
  "build_continuous_pdf_widgets s =
     (let zoom = (if current_zoom s \<le> 0 then 1 else current_zoom s)
      in s\<lparr>multi_layout := map (scale_image zoom) (pdf_images s),
            build_count := Suc (build_count s),
            continuous_needs_build := False\<rparr>)"

text \<open>
  \<open>_update_zoom_label\<close>, called at the end of \<open>_update_view\<close>: with pages and a document
  that is not a PDF it divides the font size by \<open>float(self.base_font_size)\<close>. Only the
  exception is modelled, not the text of the label.
\<close>

definition update_zoom_label :: "win \<Rightarrow> py_error + win" where
  "update_zoom_label s =
     (if pages s = [] then Inr s
      else if current_book_type s = Some ''pdf'' then Inr s
      else if base_font_size s = 0 then Inl ZeroDivisionError
      else Inr s)"

text \<open>The part of \<open>_update_view\<close> that shows the current page of a window with pages.\<close>

definition show_page :: "win \<Rightarrow> py_error + win" where
  "show_page s =
     (if current_book_type s = Some ''epub'' then
        (case py_getitem (pages s) (current_index s) of
           Inl e \<Rightarrow> Inl e
         | Inr content \<Rightarrow> Inr (s\<lparr>shown := ShowHtml content (current_font_size s)\<rparr>))
      else if current_book_type s = Some ''pdf'' then
        (if view_mode s = ''single'' then
           (if 0 \<le> current_index s \<and> current_index s < int (length (pdf_images s)) then
              (let base_img = pdf_images s ! nat (current_index s);
                   zoom = (if current_zoom s > 0 then current_zoom s else 1)
               in Inr (s\<lparr>shown := ShowImage (scale_image zoom base_img)\<rparr>))
            else Inr (s\<lparr>shown := ShowCleared\<rparr>))
         else
           (let s1 = s\<lparr>shown := ShowMulti\<rparr>
            in if continuous_needs_build s1 then Inr (build_continuous_pdf_widgets s1)
               else Inr s1))
      else Inr s)"

definition update_view :: "win \<Rightarrow> py_error + win" where
  "update_view s =
     (if pages s = [] then update_zoom_label (s\<lparr>shown := ShowNoDocument\<rparr>)
      else
        (case show_page s of
           Inl e \<Rightarrow> Inl e
         | Inr s1 \<Rightarrow> update_zoom_label s1))"

subsection \<open>Navigation\<close>

definition go_prev :: "win \<Rightarrow> py_error + win" where
  "go_prev s =
     (if pages s = [] then Inr s
      else if current_index s > 0 then update_view (s\<lparr>current_index := current_index s - 1\<rparr>)
      else Inr s)"

definition go_next :: "win \<Rightarrow> py_error + win" where
  "go_next s =
     (if pages s = [] then Inr s
      else if current_index s < int (length (pages s)) - 1 then
        update_view (s\<lparr>current_index := current_index s + 1\<rparr>)
      else Inr s)"

text \<open>\<open>typed\<close> and \<open>ok\<close> are what the user does with the "Go to page" dialog.\<close>

definition go_to_page_dialog :: "int \<Rightarrow> bool \<Rightarrow> win \<Rightarrow> py_error + win" where
  "go_to_page_dialog typed ok s =
     (if pages s = [] then Inr s
      else
        (let max_page = int (length (pages s));
             value = QInputDialog_getInt typed 1 max_page
         in if ok then update_view (s\<lparr>current_index := value - 1\<rparr>) else Inr s))"

definition index_valid :: "win \<Rightarrow> bool" where
  "index_valid s \<longleftrightarrow> 0 \<le> current_index s \<and> current_index s < int (length (pages s))"

subsection \<open>Zoom\<close>

text \<open>
  Each zoom handler changes the zoom or the font size and then calls \<open>_update_view\<close>.
  The change is a function of its own (\<open>_state\<close>), so that the window between the
  change and the render request can be talked about.
\<close>

definition zoom_in_state :: "win \<Rightarrow> win" where
  "zoom_in_state s =
     (if current_book_type s = Some ''pdf'' then
        (let s1 = s\<lparr>current_zoom := current_zoom s + 15 / 100\<rparr>;
             s2 = (if current_zoom s1 > 3 then s1\<lparr>current_zoom := 3\<rparr> else s1)
         in if view_mode s2 = ''continuous'' then s2\<lparr>continuous_needs_build := True\<rparr> else s2)
      else
        (let s1 = s\<lparr>current_font_size := current_font_size s + 1\<rparr>
         in if current_font_size s1 > 40 then s1\<lparr>current_font_size := 40\<rparr> else s1))"

definition zoom_in :: "win \<Rightarrow> py_error + win" where
  "zoom_in s = (if pages s = [] then Inr s else update_view (zoom_in_state s))"

definition zoom_out_state :: "win \<Rightarrow> win" where
  "zoom_out_state s =
     (if current_book_type s = Some ''pdf'' then
        (let s1 = s\<lparr>current_zoom := current_zoom s - 15 / 100\<rparr>;
             s2 = (if current_zoom s1 < 1 / 2 then s1\<lparr>current_zoom := 1 / 2\<rparr> else s1)
         in if view_mode s2 = ''continuous'' then s2\<lparr>continuous_needs_build := True\<rparr> else s2)
      else
        (let s1 = s\<lparr>current_font_size := current_font_size s - 1\<rparr>
         in if current_font_size s1 < 8 then s1\<lparr>current_font_size := 8\<rparr> else s1))"

definition zoom_out :: "win \<Rightarrow> py_error + win" where
  "zoom_out s = (if pages s = [] then Inr s else update_view (zoom_out_state s))"

text \<open>
  \<open>zoom_label_clicked\<close> after the dialog has returned \<open>value\<close> with \<open>ok\<close>:
  the source clamps again, whatever the dialog returned.
\<close>

definition zoom_label_set :: "int \<Rightarrow> win \<Rightarrow> win" where
  "zoom_label_set value s =
     (if current_book_type s = Some ''pdf'' then
        (let s1 = s\<lparr>current_zoom := of_int value / 100\<rparr>;
             s2 = (if current_zoom s1 < 1 / 2 then s1\<lparr>current_zoom := 1 / 2\<rparr> else s1);
             s3 = (if current_zoom s2 > 3 then s2\<lparr>current_zoom := 3\<rparr> else s2)
         in if view_mode s3 = ''continuous'' then s3\<lparr>continuous_needs_build := True\<rparr> else s3)
      else
        (let new_size = py_int (of_int (base_font_size s) * (of_int value / 100));
             new_size = (if new_size < 8 then 8 else new_size);
             new_size = (if new_size > 40 then 40 else new_size)
         in s\<lparr>current_font_size := new_size\<rparr>))"

text \<open>
  \<open>zoom_label_clicked\<close> computes the percentage shown in the dialog first, with the same
  division as \<open>_update_zoom_label\<close>.
\<close>

definition zoom_label_clicked :: "int \<Rightarrow> bool \<Rightarrow> win \<Rightarrow> py_error + win" where
  "zoom_label_clicked typed ok s =
     (if pages s = [] then Inr s
      else if current_book_type s \<noteq> Some ''pdf'' \<and> base_font_size s = 0 then
        Inl ZeroDivisionError
      else
        (let value = QInputDialog_getInt typed 50 300
         in if \<not> ok then Inr s else update_view (zoom_label_set value s)))"

subsection \<open>View mode\<close>

definition set_view_mode_state :: "string \<Rightarrow> win \<Rightarrow> win" where
  "set_view_mode_state mode s =
     (if mode = ''single'' then s\<lparr>view_mode := ''single''\<rparr>
      else if mode = ''continuous'' then
        s\<lparr>view_mode := ''continuous'', continuous_needs_build := True\<rparr>
      else s)"

definition set_view_mode :: "string \<Rightarrow> win \<Rightarrow> py_error + win" where
  "set_view_mode mode s =
     (if current_book_type s \<noteq> Some ''pdf'' then Inr s
      else if mode = ''single'' \<or> mode = ''continuous'' then
        update_view (set_view_mode_state mode s)
      else Inr s)"

subsection \<open>Settings dialog\<close>

record settings_values =
  sv_font_family :: string
  sv_font_size :: int
  sv_theme :: string
  sv_language :: string

text \<open>
  \<open>SettingsDialog\<close>: the size comes from a spin box with \<open>setRange(8, 48)\<close>, the
  theme and the language from two-entry combo boxes. In \<open>open_settings_dialog\<close> the calls
  of \<open>apply_theme\<close>, \<open>apply_language\<close> and \<open>save_settings\<close> assign no field of the window.
\<close>

definition get_values :: "string \<Rightarrow> int \<Rightarrow> nat \<Rightarrow> nat \<Rightarrow> settings_values" where
  "get_values font typed_size theme_index lang_index =
     \<lparr>sv_font_family = font,
      sv_font_size = max 8 (min 48 typed_size),
      sv_theme = (if theme_index = 0 then ''light'' else ''dark''),
      sv_language = (if lang_index = 0 then ''en'' else ''th'')\<rparr>"

definition open_settings_dialog :: "bool \<Rightarrow> settings_values \<Rightarrow> win \<Rightarrow> py_error + win" where
  "open_settings_dialog accepted values s =
     (if accepted then
        update_view (s\<lparr>font_family := sv_font_family values,
                       base_font_size := sv_font_size values,
                       current_font_size := sv_font_size values,
                       theme := sv_theme values,
                       language := sv_language values\<rparr>)
      else Inr s)"

subsection \<open>The engines and the dialogs, as the handlers see them\<close>

text \<open>
  \<open>fitz.open(path)\<close> raises or returns a document. A document says whether it needs a
  password and which passwords it accepts; iterating it yields pages, and
  \<open>page.get_pixmap\<close> gives an image or raises.
\<close>

record pdf_doc =
  needs_pass :: bool
  authenticate :: "string \<Rightarrow> bool"
  doc_pages :: "(py_error + qimage) list"

datatype fitz_open = FitzRaises py_error | FitzDoc pdf_doc

text \<open>
  An item of an EPUB book: whether it is of type \<open>ITEM_DOCUMENT\<close>, whether writing it
  to the temporary directory raises, and what parsing it and rewriting its image links
  gives (the HTML of the page, or an exception).
\<close>

record epub_item =
  is_document :: bool
  extract_error :: "py_error option"
  clean_html :: "py_error + string"

datatype read_epub = ReadRaises py_error | Book "epub_item list"

text \<open>The message boxes of \<open>open_file\<close> and \<open>load_pdf\<close>.\<close>

datatype message =
    Unsupported_file
  | Cancelled
  | Incorrect_password
  | Failed_to_open py_error

text \<open>
  A loader returns, maybe after a message box, or raises; in both cases the fields it has
  assigned so far keep their new values.
\<close>

datatype load_result = Returned win "message option" | Raised py_error win

subsection \<open>Loading a PDF\<close>

fun load_pdf_pages :: "(py_error + qimage) list \<Rightarrow> win \<Rightarrow> load_result" where
  "load_pdf_pages [] s = Returned s None"
| "load_pdf_pages (Inl e # ps) s = Raised e s"
| "load_pdf_pages (Inr img # ps) s =
     load_pdf_pages ps
       (s\<lparr>pdf_images := pdf_images s @ [img],
          pages := pages s @ [PdfPage (length (pages s))]\<rparr>)"

text \<open>\<open>dlg\<close> is the answer to the password dialog: the text and the OK flag.\<close>

definition load_pdf :: "fitz_open \<Rightarrow> string \<times> bool \<Rightarrow> win \<Rightarrow> load_result" where
  "load_pdf file dlg s =
     (let s1 = s\<lparr>current_book_type := Some ''pdf'',
                 pages := [],
                 pdf_images := [],
                 current_zoom := 1,
                 view_mode := ''single'',
                 continuous_needs_build := True\<rparr>
      in case file of
           FitzRaises e \<Rightarrow> Raised e s1
         | FitzDoc doc \<Rightarrow>
             if needs_pass doc then
               (let password = fst dlg; ok = snd dlg
                in if \<not> ok \<or> password = [] then Returned s1 (Some Cancelled)
                   else if \<not> authenticate doc password then Returned s1 (Some Incorrect_password)
                   else load_pdf_pages (doc_pages doc) s1)
             else load_pdf_pages (doc_pages doc) s1)"

subsection \<open>Loading an EPUB\<close>

text \<open>
  The temporary directory itself is not a field of the model; an exception while it is
  replaced (\<open>tempfile.mkdtemp\<close>) is, like one of \<open>epub.read_epub\<close>, the branch
  \<open>ReadRaises\<close>: both come before any page is appended.
\<close>

fun extract_items :: "epub_item list \<Rightarrow> py_error option" where
  "extract_items [] = None"
| "extract_items (it # its) =
     (case extract_error it of Some e \<Rightarrow> Some e | None \<Rightarrow> extract_items its)"

fun load_epub_pages :: "epub_item list \<Rightarrow> win \<Rightarrow> load_result" where
  "load_epub_pages [] s = Returned s None"
| "load_epub_pages (it # its) s =
     (case clean_html it of
        Inl e \<Rightarrow> Raised e s
      | Inr html \<Rightarrow> load_epub_pages its (s\<lparr>pages := pages s @ [HtmlPage html]\<rparr>))"

definition load_epub :: "read_epub \<Rightarrow> win \<Rightarrow> load_result" where
  "load_epub book s =
     (let s1 = s\<lparr>current_book_type := Some ''epub'',
                 pages := [],
                 current_font_size := base_font_size s\<rparr>
      in case book of
           ReadRaises e \<Rightarrow> Raised e s1
         | Book items \<Rightarrow>
             (case extract_items items of
                Some e \<Rightarrow> Raised e s1
              | None \<Rightarrow>
                  (case load_epub_pages (filter is_document items) s1 of
                     Raised e s2 \<Rightarrow> Raised e s2
                   | Returned s2 m \<Rightarrow>
                       if pages s2 = []
                       then Returned (s2\<lparr>pages := pages s2 @
                              [HtmlPage ''<h3>No readable content found.</h3>'']\<rparr>) m
                       else Returned s2 m)))"

subsection \<open>Opening a file\<close>

definition basename :: "string \<Rightarrow> string" where
  "basename p = rev (takeWhile (\<lambda>c. c \<noteq> CHR ''/'') (rev p))"

text \<open>
  \<open>os.path.splitext(path)[1]\<close>: the part of the last component from its last dot on,
  empty when the component has no dot or only dots before the last one.
\<close>

definition splitext_ext :: "string \<Rightarrow> string" where
  "splitext_ext p =
     (let name = basename p;
          suffix = rev (takeWhile (\<lambda>c. c \<noteq> CHR ''.'') (rev name));
          stem = take (length name - length suffix - 1) name
      in if CHR ''.'' \<notin> set name \<or> list_all (\<lambda>c. c = CHR ''.'') stem then []
         else CHR ''.'' # suffix)"

text \<open>\<open>str.lower()\<close> on the letters A to Z; every other character is kept.\<close>

definition lower_char :: "char \<Rightarrow> char" where
  "lower_char c =
     (case map_of (zip ''ABCDEFGHIJKLMNOPQRSTUVWXYZ'' ''abcdefghijklmnopqrstuvwxyz'') c of
        Some d \<Rightarrow> d
      | None \<Rightarrow> c)"

definition lower :: "string \<Rightarrow> string" where
  "lower p = map lower_char p"

record engines =
  fitz :: "string \<Rightarrow> fitz_open"
  epub :: "string \<Rightarrow> read_epub"

text \<open>
  \<open>path\<close> is what the file dialog returns (empty when cancelled). The result is the
  window after the handler and the message box it showed, if any.
\<close>

definition open_file ::
    "engines \<Rightarrow> string \<Rightarrow> string \<times> bool \<Rightarrow> win \<Rightarrow> py_error + win \<times> message option" where
  "open_file env path dlg s =
     (if path = [] then Inr (s, None)
      else
        (let ext = lower (splitext_ext path);
             loaded =
               (if ext = ''.pdf'' then Some (load_pdf (fitz env path) dlg s)
                else if ext = ''.epub'' then Some (load_epub (epub env path) s)
                else None)
         in case loaded of
              None \<Rightarrow> Inr (s, Some Unsupported_file)
            | Some (Raised e s1) \<Rightarrow> Inr (s1, Some (Failed_to_open e))
            | Some (Returned s1 m) \<Rightarrow>
                (case update_view (s1\<lparr>current_book_path := Some path,
                                      current_book_title := basename path,
                                      current_index := 0\<rparr>) of
                   Inl e \<Rightarrow> Inl e
                 | Inr s2 \<Rightarrow> Inr (s2, m))))"

subsection \<open>Settings file\<close>

text \<open>
  A parsed settings file: the options of its \<open>DEFAULT\<close> section, which every section
  falls back to, and its named sections. The file on disk is absent, unreadable by the
  parser, or parsed.
\<close>

record config =
  default_section :: "string \<rightharpoonup> string"
  sections :: "string \<rightharpoonup> (string \<rightharpoonup> string)"

datatype settings_file = Absent | Malformed | Parsed config

definition new_config :: config where
  "new_config = \<lparr>default_section = Map.empty, sections = Map.empty\<rparr>"

text \<open>\<open>config[name][key]\<close> as the parser answers it, when the section exists.\<close>

definition get_option :: "config \<Rightarrow> string \<Rightarrow> string \<Rightarrow> string option" where
  "get_option c name k =
     (case sections c name of
        None \<Rightarrow> None
      | Some sec \<Rightarrow> (case sec k of Some v \<Rightarrow> Some v | None \<Rightarrow> default_section c k))"

text \<open>
  The parser is a \<open>ConfigParser()\<close> with the library's default \<open>BasicInterpolation\<close>:
  reading an option through \<open>config[name][key]\<close> expands the stored text. \<open>%%\<close> stands
  for a percent sign, \<open>%(name)s\<close> for the value of option \<open>name\<close> (lower-cased, looked up
  in the section and then in \<open>DEFAULT\<close>, expanded in turn when it holds a percent sign,
  at most ten levels deep), and any other use of \<open>%\<close> raises.

  \<open>key_match\<close> is the match of \<open>%\(([^)]+)\)s\<close> at the start of a text that begins with
  \<open>%(\<close>: the name and the text after the reference.
\<close>

definition key_match :: "string \<Rightarrow> (string \<times> string) option" where
  "key_match rest =
     (let body = drop 2 rest;
          name = takeWhile (\<lambda>c. c \<noteq> CHR '')'') body;
          tail = dropWhile (\<lambda>c. c \<noteq> CHR '')'') body
      in if name \<noteq> [] \<and> take 2 tail = '')s'' then Some (name, drop 2 tail) else None)"

function interpolate_some :: "(string \<rightharpoonup> string) \<Rightarrow> nat \<Rightarrow> string \<Rightarrow> py_error + string" where
  "interpolate_some vars depth rest =
     (if 10 < depth then Inl InterpolationDepthError
      else if CHR ''%'' \<notin> set rest then Inr rest
      else
        (let lit = takeWhile (\<lambda>c. c \<noteq> CHR ''%'') rest;
             r = dropWhile (\<lambda>c. c \<noteq> CHR ''%'') rest;
             c = take 1 (drop 1 r)
         in if c = ''%'' then
              (case interpolate_some vars depth (drop 2 r) of
                 Inl e \<Rightarrow> Inl e
               | Inr t \<Rightarrow> Inr (lit @ ''%'' @ t))
            else if c = ''('' then
              (case key_match r of
                 None \<Rightarrow> Inl InterpolationSyntaxError
               | Some (name, r') \<Rightarrow>
                   (case vars (lower name) of
                      None \<Rightarrow> Inl InterpolationMissingOptionError
                    | Some v \<Rightarrow>
                        (case (if CHR ''%'' \<in> set v then interpolate_some vars (Suc depth) v
                               else Inr v) of
                           Inl e \<Rightarrow> Inl e
                         | Inr t1 \<Rightarrow>
                             (case interpolate_some vars depth r' of
                                Inl e \<Rightarrow> Inl e
                              | Inr t2 \<Rightarrow> Inr (lit @ t1 @ t2)))))
            else Inl InterpolationSyntaxError))"
  by pat_completeness auto

termination
proof (relation "measures [\<lambda>(vars, depth, rest). 11 - depth, \<lambda>(vars, depth, rest). length rest]",
    goal_cases)
  case 1
  show ?case by simp
next
  case (2 vars depth rest lit r c)
  then have "r \<noteq> []" by (auto simp: dropWhile_eq_Nil_conv)
  moreover from 2 have "length r \<le> length rest" by (simp add: length_dropWhile_le)
  ultimately show ?case by (cases r) auto
next
  case (3 vars depth rest lit r c m name r' v)
  then show ?case by auto
next
  case (4 vars depth rest lit r c m name r' v t1)
  then have "r \<noteq> []" by (auto simp: dropWhile_eq_Nil_conv)
  moreover from 4 have "length r \<le> length rest" by (simp add: length_dropWhile_le)
  moreover from 4 have "key_match r = Some (name, r')" by simp
  then have "r' = drop 2 (dropWhile (\<lambda>c. c \<noteq> CHR '')'') (drop 2 r))"
    by (simp add: key_match_def Let_def split: if_splits)
  then have "length r' \<le> length (drop 2 r)"
    using length_dropWhile_le [of "\<lambda>c. c \<noteq> CHR '')''" "drop 2 r"] by simp
  ultimately show ?case by (cases r) auto
qed

declare interpolate_some.simps [simp del]

text \<open>
  \<open>general.setdefault(key, value)\<close> is \<open>MutableMapping.setdefault\<close>: it reads
  \<open>general[key]\<close>, which raises \<open>KeyError\<close> when neither the section nor \<open>DEFAULT\<close> has
  the option and expands the stored text otherwise; only on \<open>KeyError\<close> it stores the
  default. An exception of the expansion leaves the call.
\<close>

definition setdefault :: "config \<Rightarrow> string \<times> string \<Rightarrow> py_error + config" where
  "setdefault c kv =
     (case get_option c ''General'' (fst kv) of
        Some stored \<Rightarrow>
          (case interpolate_some (get_option c ''General'') 1 stored of
             Inl e \<Rightarrow> Inl e
           | Inr v \<Rightarrow> Inr c)
      | None \<Rightarrow>
          (case sections c ''General'' of
             None \<Rightarrow> Inl NoSectionError
           | Some sec \<Rightarrow>
               Inr (c\<lparr>sections := (sections c)(''General'' \<mapsto> sec(fst kv \<mapsto> snd kv))\<rparr>)))"

definition defaults :: "(string \<times> string) list" where
  "defaults =
     [(''theme'', ''light''), (''font_family'', ''Segoe UI''),
      (''font_size'', ''12''), (''language'', ''en'')]"

text \<open>\<open>for key, value in defaults.items(): general.setdefault(key, value)\<close>\<close>

fun setdefault_each :: "config \<Rightarrow> (string \<times> string) list \<Rightarrow> py_error + config" where
  "setdefault_each c [] = Inr c"
| "setdefault_each c (kv # kvs) =
     (case setdefault c kv of
        Inl e \<Rightarrow> Inl e
      | Inr c1 \<Rightarrow> setdefault_each c1 kvs)"

text \<open>
  The parser's content after the \<open>if os.path.exists ... try ... except\<close> block: an
  absent file is not read, a file the parser rejects leaves a new, empty parser.
\<close>

definition read_settings :: "settings_file \<Rightarrow> config" where
  "read_settings file =
     (case file of Absent \<Rightarrow> new_config | Malformed \<Rightarrow> new_config | Parsed c \<Rightarrow> c)"

text \<open>\<open>if "General" not in self.config: self.config["General"] = {}\<close>\<close>

definition with_general :: "config \<Rightarrow> config" where
  "with_general c0 =
     (if sections c0 ''General'' = None
      then c0\<lparr>sections := (sections c0)(''General'' \<mapsto> Map.empty)\<rparr> else c0)"

text \<open>
  The loop over the defaults stands after the \<open>try\<close>, so an exception of
  \<open>setdefault\<close> leaves \<open>_load_or_create_settings\<close> (and \<open>__init__\<close>) before the file is
  written. The result is the exception or the parser's content after the call, and the
  settings file after it.
\<close>

definition load_or_create_settings :: "settings_file \<Rightarrow> (py_error + config) \<times> settings_file" where
  "load_or_create_settings file =
     (case setdefault_each (with_general (read_settings file)) defaults of
        Inl e \<Rightarrow> (Inl e, file)
      | Inr c \<Rightarrow> (Inr c, Parsed c))"

subsection \<open>The window at start-up\<close>

text \<open>
  The fields as \<open>__init__\<close> assigns them, given the four settings read from the file
  (the size already an integer); \<open>__init__\<close> ends with a call of \<open>_update_view\<close>.
\<close>

definition new_win :: "string \<Rightarrow> string \<Rightarrow> string \<Rightarrow> int \<Rightarrow> win" where
  "new_win lang thm family sz =
     \<lparr>current_book_type = None,
      current_book_path = None,
      current_book_title = ''Untitled'',
      pages = [],
      current_index = 0,
      base_font_size = sz,
      current_font_size = sz,
      current_zoom = 1,
      pdf_images = [],
      view_mode = ''single'',
      continuous_needs_build = True,
      font_family = family,
      theme = thm,
      language = lang,
      multi_layout = [],
      build_count = 0,
      shown = Blank\<rparr>"

definition init_win :: "string \<Rightarrow> string \<Rightarrow> string \<Rightarrow> int \<Rightarrow> py_error + win" where
  "init_win lang thm family sz = update_view (new_win lang thm family sz)"

subsection \<open>Sample windows and files\<close>

text \<open>
  Concrete inputs for the examples below: a window with default settings, the same
  window showing the last page of a three-page PDF (single-page and continuous), showing
  the second chapter of an EPUB, three windows that the examples reach from these, and a
  file system seen through the two engines.
\<close>

definition fresh_win :: win where
  "fresh_win = new_win ''en'' ''light'' ''Segoe UI'' 12"

definition pdf_win :: win where
  "pdf_win =
     fresh_win\<lparr>current_book_type := Some ''pdf'',
               current_book_path := Some ''/home/u/paper.pdf'',
               current_book_title := ''paper.pdf'',
               pages := [PdfPage 0, PdfPage 1, PdfPage 2],
               pdf_images := [(600, 800), (600, 800), (600, 800)],
               current_index := 2,
               shown := ShowImage (600, 800)\<rparr>"

definition continuous_win :: win where
  "continuous_win =
     pdf_win\<lparr>view_mode := ''continuous'',
             current_zoom := 2,
             continuous_needs_build := False,
             multi_layout := [(1200, 1600), (1200, 1600), (1200, 1600)],
             build_count := 1,
             shown := ShowMulti\<rparr>"

definition epub_win :: win where
  "epub_win =
     fresh_win\<lparr>current_book_type := Some ''epub'',
               current_book_path := Some ''/home/u/novel.epub'',
               current_book_title := ''novel.epub'',
               pages := [HtmlPage ''<p>one</p>'', HtmlPage ''<p>two</p>''],
               current_index := 1,
               shown := ShowHtml (HtmlPage ''<p>two</p>'') 12\<rparr>"

definition story_win :: win where
  "story_win =
     continuous_win\<lparr>current_book_type := Some ''epub'',
                    current_book_path := Some ''/home/u/story.EPUB'',
                    current_book_title := ''story.EPUB'',
                    pages := [HtmlPage ''<p>a</p>''],
                    current_index := 0,
                    shown := ShowHtml (HtmlPage ''<p>a</p>'') 12\<rparr>"

definition damaged_win :: win where
  "damaged_win = pdf_win\<lparr>pages := [PdfPage 0], pdf_images := [(500, 700)]\<rparr>"

definition large_font_win :: win where
  "large_font_win =
     epub_win\<lparr>base_font_size := 48, current_font_size := 48,
              shown := ShowHtml (HtmlPage ''<p>two</p>'') 48\<rparr>"

text \<open>
  The window after start-up with \<open>font_size = 48\<close> in the settings file, and the same
  window after \<open>story.EPUB\<close> has been opened in it.
\<close>

definition start48_win :: win where
  "start48_win = (new_win ''en'' ''light'' ''Segoe UI'' 48)\<lparr>shown := ShowNoDocument\<rparr>"

definition story48_win :: win where
  "story48_win =
     start48_win\<lparr>current_book_type := Some ''epub'',
                 current_book_path := Some ''/home/u/story.EPUB'',
                 current_book_title := ''story.EPUB'',
                 pages := [HtmlPage ''<p>a</p>''],
                 shown := ShowHtml (HtmlPage ''<p>a</p>'') 48\<rparr>"

definition plain_pdf :: "(py_error + qimage) list \<Rightarrow> fitz_open" where
  "plain_pdf ps = FitzDoc \<lparr>needs_pass = False, authenticate = (\<lambda>pw. False), doc_pages = ps\<rparr>"

definition locked_pdf :: fitz_open where
  "locked_pdf =
     FitzDoc \<lparr>needs_pass = True, authenticate = (\<lambda>pw. pw = ''secret''),
              doc_pages = [Inr (600, 800)]\<rparr>"

definition chapter_item :: "string \<Rightarrow> epub_item" where
  "chapter_item html = \<lparr>is_document = True, extract_error = None, clean_html = Inr html\<rparr>"

definition stylesheet :: epub_item where
  "stylesheet = \<lparr>is_document = False, extract_error = None, clean_html = Inr []\<rparr>"

text \<open>An item of a book that cannot be written to the temporary directory.\<close>

definition broken_item :: epub_item where
  "broken_item = \<lparr>is_document = True, extract_error = Some EngineError, clean_html = Inr []\<rparr>"

definition sample_env :: engines where
  "sample_env =
     \<lparr>fitz = (\<lambda>p.
        if p = ''/home/u/two.pdf'' then plain_pdf [Inr (500, 700), Inr (500, 700)]
        else if p = ''/home/u/damaged.pdf'' then plain_pdf [Inr (500, 700), Inl EngineError]
        else if p = ''/home/u/locked.pdf'' then locked_pdf
        else FitzRaises EngineError),
      epub = (\<lambda>p.
        if p = ''/home/u/story.EPUB'' then Book [stylesheet, chapter_item ''<p>a</p>'']
        else if p = ''/home/u/cover-only.epub'' then Book [stylesheet]
        else ReadRaises EngineError)\<rparr>"

subsection \<open>Predicates used in the properties\<close>

text \<open>The page index is valid for the page list, or there are no pages.\<close>

definition index_invariant :: "win \<Rightarrow> bool" where
  "index_invariant s \<longleftrightarrow> pages s = [] \<or> index_valid s"

text \<open>The percentage of the zoom label can be computed: no division by a zero base size.\<close>

definition label_ok :: "win \<Rightarrow> bool" where
  "label_ok s \<longleftrightarrow> current_book_type s = Some ''pdf'' \<or> base_font_size s \<noteq> 0"

text \<open>The bounds of the zoom factor and of the font size.\<close>

definition zoom_in_range :: "win \<Rightarrow> bool" where
  "zoom_in_range s \<longleftrightarrow> 1 / 2 \<le> current_zoom s \<and> current_zoom s \<le> 3"

definition font_in_range :: "win \<Rightarrow> bool" where
  "font_in_range s \<longleftrightarrow> 8 \<le> current_font_size s \<and> current_font_size s \<le> 40"

text \<open>Two windows with the same zoom factor and font size.\<close>

definition same_scale :: "win \<Rightarrow> win \<Rightarrow> bool" where
  "same_scale a b \<longleftrightarrow>
     current_zoom a = current_zoom b \<and> current_font_size a = current_font_size b"

text \<open>
  The value a parsed file gives to option \<open>k\<close> of \<open>General\<close>: the section's own, else
  the one of \<open>DEFAULT\<close>.
\<close>

definition stored_option :: "config \<Rightarrow> string \<Rightarrow> string option" where
  "stored_option c k =
     (case sections c ''General'' of
        None \<Rightarrow> default_section c k
      | Some sec \<Rightarrow> (case sec k of Some v \<Rightarrow> Some v | None \<Rightarrow> default_section c k))"

definition dark_settings :: settings_file where
  "dark_settings =
     Parsed \<lparr>default_section = Map.empty,
             sections = [''General'' \<mapsto> [''theme'' \<mapsto> ''dark''], ''Recent'' \<mapsto> Map.empty]\<rparr>"

text \<open>
  A settings file that the parser reads without complaint, with a font family whose
  name holds a percent sign and no other option:

  \<^verbatim>\<open>[General]\<close>

  \<^verbatim>\<open>font_family = 100% Sans\<close>
\<close>

definition percent_settings :: settings_file where
  "percent_settings =
     Parsed \<lparr>default_section = Map.empty,
             sections = [''General'' \<mapsto> [''font_family'' \<mapsto> ''100% Sans'']]\<rparr>"

text \<open>
  \<open>rebuilt_once s st\<close>: the window \<open>st\<close>, reached from \<open>s\<close> by a change of state, has
  the flag \<open>_continuous_needs_build\<close> set; a render request on it returns, has run
  \<open>_build_continuous_pdf_widgets\<close> exactly once since \<open>s\<close>, has laid out every page at
  the zoom of \<open>st\<close> and has cleared the flag; and a second render request changes nothing.
\<close>

definition rebuilt_once :: "win \<Rightarrow> win \<Rightarrow> bool" where
  "rebuilt_once s st \<longleftrightarrow>
     continuous_needs_build st \<and>
     (\<exists>s1. update_view st = Inr s1 \<and> \<not> continuous_needs_build s1 \<and>
        build_count s1 = Suc (build_count s) \<and>
        multi_layout s1 =
          map (scale_image (if current_zoom st \<le> 0 then 1 else current_zoom st)) (pdf_images st) \<and>
        update_view s1 = Inr s1)"

section \<open>Properties\<close>

subsection \<open>What a render request keeps\<close>

lemmas update_view_defs = update_view_def show_page_def update_zoom_label_def

lemma update_view_frame:
  "update_view s = Inr s' \<Longrightarrow>
     pages s' = pages s \<and> current_index s' = current_index s \<and>
     current_book_type s' = current_book_type s \<and> current_zoom s' = current_zoom s \<and>
     current_font_size s' = current_font_size s \<and> base_font_size s' = base_font_size s \<and>
     view_mode s' = view_mode s \<and> pdf_images s' = pdf_images s \<and>
     current_book_path s' = current_book_path s \<and> font_family s' = font_family s"
  by (auto simp: update_view_defs build_continuous_pdf_widgets_def Let_def
           split: if_splits sum.splits)

lemma update_view_returns:
  "index_valid s \<Longrightarrow> label_ok s \<Longrightarrow> \<exists>s'. update_view s = Inr s'"
  by (auto simp: update_view_defs index_valid_def label_ok_def py_getitem_def
        build_continuous_pdf_widgets_def Let_def)

lemma update_view_valid:
  "index_valid s \<Longrightarrow> label_ok s \<Longrightarrow>
     \<exists>s'. update_view s = Inr s' \<and> index_valid s' \<and> pages s' = pages s"
proof -
  assume v: "index_valid s" and l: "label_ok s"
  then obtain s' where r: "update_view s = Inr s'" using update_view_returns by blast
  from update_view_frame [OF r] v have "index_valid s'" by (simp add: index_valid_def)
  with r update_view_frame [OF r] show ?thesis by simp
qed

subsection \<open>Navigation\<close>

text \<open>
  C1. In a window whose page index is valid for its N pages (and whose zoom label can be
  computed), \<open>go_prev\<close>, \<open>go_next\<close> and \<open>go_to_page_dialog\<close> (whatever number is typed,
  accepted or not) return normally with the page list unchanged and the index again in
  \<open>[0, N-1]\<close>. In a window with no pages each of the three returns the window unchanged.
\<close>

theorem navigate_keeps_index_in_range:
  "(pages s \<noteq> [] \<and> index_valid s \<and> label_ok s \<longrightarrow>
      (\<exists>s'. go_prev s = Inr s' \<and> index_valid s' \<and> pages s' = pages s) \<and>
      (\<exists>s'. go_next s = Inr s' \<and> index_valid s' \<and> pages s' = pages s) \<and>
      (\<exists>s'. go_to_page_dialog typed ok s = Inr s' \<and> index_valid s' \<and> pages s' = pages s)) \<and>
   (pages s = [] \<longrightarrow>
      go_prev s = Inr s \<and> go_next s = Inr s \<and> go_to_page_dialog typed ok s = Inr s)"
proof (intro conjI impI)
  assume a: "pages s \<noteq> [] \<and> index_valid s \<and> label_ok s"
  then have l: "label_ok (s\<lparr>current_index := i\<rparr>)" for i
    by (simp add: label_ok_def)
  show "\<exists>s'. go_prev s = Inr s' \<and> index_valid s' \<and> pages s' = pages s"
  proof (cases "current_index s > 0")
    case True
    with a have "index_valid (s\<lparr>current_index := current_index s - 1\<rparr>)"
      by (simp add: index_valid_def)
    from update_view_valid [OF this l] a True show ?thesis by (simp add: go_prev_def)
  next
    case False
    with a show ?thesis by (simp add: go_prev_def)
  qed
  show "\<exists>s'. go_next s = Inr s' \<and> index_valid s' \<and> pages s' = pages s"
  proof (cases "current_index s < int (length (pages s)) - 1")
    case True
    with a have "index_valid (s\<lparr>current_index := current_index s + 1\<rparr>)"
      by (simp add: index_valid_def)
    from update_view_valid [OF this l] a True show ?thesis by (simp add: go_next_def)
  next
    case False
    with a show ?thesis by (simp add: go_next_def)
  qed
  show "\<exists>s'. go_to_page_dialog typed ok s = Inr s' \<and> index_valid s' \<and> pages s' = pages s"
  proof (cases ok)
    case True
    from a have "1 \<le> int (length (pages s))" by (cases "pages s") auto
    then have "index_valid
        (s\<lparr>current_index := QInputDialog_getInt typed 1 (int (length (pages s))) - 1\<rparr>)"
      unfolding index_valid_def QInputDialog_getInt_def by simp linarith
    from update_view_valid [OF this l] a True show ?thesis
      by (simp add: go_to_page_dialog_def Let_def)
  next
    case False
    with a show ?thesis by (simp add: go_to_page_dialog_def Let_def)
  qed
next
  assume "pages s = []"
  then show "go_prev s = Inr s" by (simp add: go_prev_def)
next
  assume "pages s = []"
  then show "go_next s = Inr s" by (simp add: go_next_def)
next
  assume "pages s = []"
  then show "go_to_page_dialog typed ok s = Inr s" by (simp add: go_to_page_dialog_def)
qed

theorem navigate_keeps_index_in_range_witness:
  "(pages pdf_win \<noteq> [] \<and> index_valid pdf_win \<and> label_ok pdf_win) \<and>
   (\<exists>s'. go_prev pdf_win = Inr s' \<and> index_valid s' \<and> pages s' = pages pdf_win) \<and>
   (\<exists>s'. go_next pdf_win = Inr s' \<and> index_valid s' \<and> pages s' = pages pdf_win) \<and>
   (\<exists>s'. go_to_page_dialog 7 True pdf_win = Inr s' \<and> index_valid s' \<and>
         pages s' = pages pdf_win) \<and>
   pages fresh_win = [] \<and>
   go_prev fresh_win = Inr fresh_win \<and> go_next fresh_win = Inr fresh_win \<and>
   go_to_page_dialog 7 True fresh_win = Inr fresh_win"
proof -
  have h: "pages pdf_win \<noteq> [] \<and> index_valid pdf_win \<and> label_ok pdf_win"
    by (simp add: pdf_win_def fresh_win_def new_win_def index_valid_def label_ok_def)
  have e: "pages fresh_win = []"
    by (simp add: fresh_win_def new_win_def)
  from h e navigate_keeps_index_in_range [of pdf_win 7 True]
    navigate_keeps_index_in_range [of fresh_win 7 True]
  show ?thesis by blast
qed

subsection \<open>Zoom and the continuous layout\<close>

lemma render_continuous:
  assumes "current_book_type s = Some ''pdf''" and "view_mode s = ''continuous''"
    and "pages s \<noteq> []" and "continuous_needs_build s"
  shows "\<exists>s1. update_view s = Inr s1 \<and> \<not> continuous_needs_build s1 \<and>
           build_count s1 = Suc (build_count s) \<and>
           multi_layout s1 =
             map (scale_image (if current_zoom s \<le> 0 then 1 else current_zoom s)) (pdf_images s) \<and>
           update_view s1 = Inr s1"
  using assms
  by (simp add: update_view_defs build_continuous_pdf_widgets_def Let_def)

lemma zoom_states_continuous:
  assumes "current_book_type s = Some ''pdf''" and "view_mode s = ''continuous''"
  shows "current_book_type (zoom_in_state s) = Some ''pdf''"
    and "view_mode (zoom_in_state s) = ''continuous''"
    and "continuous_needs_build (zoom_in_state s)"
    and "current_book_type (zoom_out_state s) = Some ''pdf''"
    and "view_mode (zoom_out_state s) = ''continuous''"
    and "continuous_needs_build (zoom_out_state s)"
    and "current_book_type (zoom_label_set v s) = Some ''pdf''"
    and "view_mode (zoom_label_set v s) = ''continuous''"
    and "continuous_needs_build (zoom_label_set v s)"
  using assms
  by (simp_all add: zoom_in_state_def zoom_out_state_def zoom_label_set_def Let_def)

lemma zoom_states_frame:
  "pages (zoom_in_state s) = pages s" "pages (zoom_out_state s) = pages s"
  "pages (zoom_label_set v s) = pages s"
  "build_count (zoom_in_state s) = build_count s" "build_count (zoom_out_state s) = build_count s"
  "build_count (zoom_label_set v s) = build_count s"
  "current_index (zoom_in_state s) = current_index s"
  "current_index (zoom_out_state s) = current_index s"
  "current_index (zoom_label_set v s) = current_index s"
  by (simp_all add: zoom_in_state_def zoom_out_state_def zoom_label_set_def Let_def)

lemma rebuilt_onceI:
  assumes "current_book_type st = Some ''pdf''" and "view_mode st = ''continuous''"
    and "continuous_needs_build st" and "pages st \<noteq> []" and "build_count st = build_count s"
  shows "rebuilt_once s st"
proof -
  from render_continuous [OF assms(1,2,4,3)] obtain s1 where
    "update_view st = Inr s1" "\<not> continuous_needs_build s1"
    "build_count s1 = Suc (build_count st)"
    "multi_layout s1 =
       map (scale_image (if current_zoom st \<le> 0 then 1 else current_zoom st)) (pdf_images st)"
    "update_view s1 = Inr s1"
    by blast
  with assms(3,5) show ?thesis unfolding rebuilt_once_def by auto
qed

text \<open>
  C5. For a PDF with pages in continuous mode, each of the three zoom changes
  (\<open>zoom_in\<close>, \<open>zoom_out\<close>, a percentage typed into the zoom dialog) leaves the flag
  \<open>_continuous_needs_build\<close> set; the render request that follows (the handler's own call
  of \<open>_update_view\<close>) rebuilds the layout once at the new zoom and clears the flag; one
  more render request on the result rebuilds nothing and changes nothing.
\<close>

theorem zoom_sets_dirty_render_clears:
  assumes "current_book_type s = Some ''pdf''" and "view_mode s = ''continuous''"
    and "pages s \<noteq> []"
  shows "rebuilt_once s (zoom_in_state s) \<and> zoom_in s = update_view (zoom_in_state s) \<and>
         rebuilt_once s (zoom_out_state s) \<and> zoom_out s = update_view (zoom_out_state s) \<and>
         rebuilt_once s (zoom_label_set (QInputDialog_getInt typed 50 300) s) \<and>
         zoom_label_clicked typed True s =
           update_view (zoom_label_set (QInputDialog_getInt typed 50 300) s)"
proof -
  note z = zoom_states_continuous [OF assms(1,2)]
  have a: "rebuilt_once s (zoom_in_state s)"
    by (rule rebuilt_onceI) (simp_all add: z zoom_states_frame assms(3))
  have b: "rebuilt_once s (zoom_out_state s)"
    by (rule rebuilt_onceI) (simp_all add: z zoom_states_frame assms(3))
  have c: "rebuilt_once s (zoom_label_set v s)" for v
    by (rule rebuilt_onceI) (simp_all add: z zoom_states_frame assms(3))
  from a b c assms(1,3) show ?thesis
    by (simp add: zoom_in_def zoom_out_def zoom_label_clicked_def Let_def)
qed

theorem zoom_sets_dirty_render_clears_witness:
  "current_book_type continuous_win = Some ''pdf'' \<and>
   view_mode continuous_win = ''continuous'' \<and> pages continuous_win \<noteq> [] \<and>
   \<not> continuous_needs_build continuous_win \<and>
   rebuilt_once continuous_win (zoom_in_state continuous_win) \<and>
   current_zoom (zoom_in_state continuous_win) = 43 / 20 \<and>
   rebuilt_once continuous_win (zoom_out_state continuous_win) \<and>
   rebuilt_once continuous_win (zoom_label_set 300 continuous_win)"
proof -
  have h: "current_book_type continuous_win = Some ''pdf''"
    "view_mode continuous_win = ''continuous''" "pages continuous_win \<noteq> []"
    "\<not> continuous_needs_build continuous_win"
    by (simp_all add: continuous_win_def pdf_win_def fresh_win_def new_win_def)
  have z: "current_zoom (zoom_in_state continuous_win) = 43 / 20"
    by (simp add: zoom_in_state_def continuous_win_def pdf_win_def fresh_win_def new_win_def Let_def)
  from zoom_sets_dirty_render_clears [OF h(1,2,3), of 1000] h z show ?thesis
    by (simp add: QInputDialog_getInt_def)
qed

subsection \<open>Clamping\<close>

lemma zoom_label_set_clamps:
  "current_book_type s = Some ''pdf'' \<Longrightarrow> zoom_in_range (zoom_label_set v s)"
  "current_book_type s \<noteq> Some ''pdf'' \<Longrightarrow> font_in_range (zoom_label_set v s)"
  by (simp_all add: zoom_label_set_def zoom_in_range_def font_in_range_def Let_def)

lemma zoom_states_keep_zoom_range:
  assumes "zoom_in_range s"
  shows "zoom_in_range (zoom_in_state s)" "zoom_in_range (zoom_out_state s)"
    "zoom_in_range (zoom_label_set v s)"
  using assms
  by (simp_all add: zoom_in_state_def zoom_out_state_def zoom_label_set_def
        zoom_in_range_def Let_def)

lemma zoom_states_keep_font_range:
  assumes "font_in_range s"
  shows "font_in_range (zoom_in_state s)" "font_in_range (zoom_out_state s)"
    "font_in_range (zoom_label_set v s)"
  using assms
  by (simp_all add: zoom_in_state_def zoom_out_state_def zoom_label_set_def
        font_in_range_def Let_def)

lemma index_valid_zoom_states:
  assumes "index_valid s"
  shows "index_valid (zoom_in_state s)" "index_valid (zoom_out_state s)"
    "index_valid (zoom_label_set v s)"
  using assms by (simp_all add: index_valid_def zoom_states_frame)

lemma label_ok_zoom_states:
  assumes "label_ok s"
  shows "label_ok (zoom_in_state s)" "label_ok (zoom_out_state s)"
    "label_ok (zoom_label_set v s)"
  using assms
  by (auto simp: label_ok_def zoom_in_state_def zoom_out_state_def zoom_label_set_def Let_def)

lemma update_view_same_scale:
  assumes "index_valid st" and "label_ok st"
  shows "\<exists>s'. update_view st = Inr s' \<and> same_scale s' st"
proof -
  from update_view_returns [OF assms] obtain s' where r: "update_view st = Inr s'" by blast
  from update_view_frame [OF r] have "same_scale s' st" by (simp add: same_scale_def)
  with r show ?thesis by blast
qed

text \<open>
  The step handlers clamp on one side only: \<open>zoom_in\<close> caps the font size at 40 and the
  zoom factor at 3.0 and otherwise moves up, \<open>zoom_out\<close> stops the font size at 8 and the
  zoom factor at 0.5 and otherwise moves down.
\<close>

lemma zoom_steps_clamp_one_side:
  "current_book_type s \<noteq> Some ''pdf'' \<Longrightarrow>
     current_font_size (zoom_in_state s) = min 40 (current_font_size s + 1)"
  "current_book_type s \<noteq> Some ''pdf'' \<Longrightarrow>
     current_font_size (zoom_out_state s) = max 8 (current_font_size s - 1)"
  "current_book_type s = Some ''pdf'' \<Longrightarrow>
     current_zoom (zoom_in_state s) \<le> 3 \<and>
     (current_zoom s < 3 \<longrightarrow> current_zoom s < current_zoom (zoom_in_state s))"
  "current_book_type s = Some ''pdf'' \<Longrightarrow>
     1 / 2 \<le> current_zoom (zoom_out_state s) \<and>
     (1 / 2 < current_zoom s \<longrightarrow> current_zoom (zoom_out_state s) < current_zoom s)"
  by (auto simp: zoom_in_state_def zoom_out_state_def Let_def)

text \<open>
  With a valid page index and a zoom label that can be computed none of the three zoom
  handlers raises: each returns a window with the zoom factor and the font size that its
  change of state has set.
\<close>

lemma zoom_handlers_return:
  assumes v: "index_valid s" and l: "label_ok s"
  shows "\<exists>s'. zoom_in s = Inr s' \<and> same_scale s' (zoom_in_state s)"
    and "\<exists>s'. zoom_out s = Inr s' \<and> same_scale s' (zoom_out_state s)"
    and "\<exists>s'. zoom_label_clicked typed True s = Inr s' \<and>
          same_scale s' (zoom_label_set (QInputDialog_getInt typed 50 300) s)"
proof -
  from v have p: "pages s \<noteq> []" by (auto simp: index_valid_def)
  from l have n: "\<not> (current_book_type s \<noteq> Some ''pdf'' \<and> base_font_size s = 0)"
    by (auto simp: label_ok_def)
  from update_view_same_scale [OF index_valid_zoom_states(1) [OF v] label_ok_zoom_states(1) [OF l]] p
  show "\<exists>s'. zoom_in s = Inr s' \<and> same_scale s' (zoom_in_state s)"
    by (simp add: zoom_in_def)
  from update_view_same_scale [OF index_valid_zoom_states(2) [OF v] label_ok_zoom_states(2) [OF l]] p
  show "\<exists>s'. zoom_out s = Inr s' \<and> same_scale s' (zoom_out_state s)"
    by (simp add: zoom_out_def)
  from update_view_same_scale [OF index_valid_zoom_states(3) [OF v] label_ok_zoom_states(3) [OF l]]
    p n
  show "\<exists>s'. zoom_label_clicked typed True s = Inr s' \<and>
      same_scale s' (zoom_label_set (QInputDialog_getInt typed 50 300) s)"
    by (simp add: zoom_label_clicked_def Let_def)
qed

subsection \<open>View mode\<close>

text \<open>
  C8. \<open>set_view_mode\<close> returns the window unchanged unless the current document is a
  PDF. For a PDF, switching to continuous mode sets \<open>_continuous_needs_build\<close> before the
  handler's render request: with no pages the flag is still set when the handler returns,
  with pages the layout has been rebuilt once, whatever the flag was before.
\<close>

theorem set_view_mode_reflowable_noop_continuous_dirty:
  "(current_book_type s \<noteq> Some ''pdf'' \<longrightarrow> set_view_mode mode s = Inr s) \<and>
   (current_book_type s = Some ''pdf'' \<longrightarrow>
      continuous_needs_build (set_view_mode_state ''continuous'' s) \<and>
      view_mode (set_view_mode_state ''continuous'' s) = ''continuous'' \<and>
      set_view_mode ''continuous'' s = update_view (set_view_mode_state ''continuous'' s) \<and>
      (pages s = [] \<longrightarrow>
         (\<exists>s'. set_view_mode ''continuous'' s = Inr s' \<and> view_mode s' = ''continuous'' \<and>
               continuous_needs_build s')) \<and>
      (pages s \<noteq> [] \<longrightarrow>
         (\<exists>s'. set_view_mode ''continuous'' s = Inr s' \<and> view_mode s' = ''continuous'' \<and>
               build_count s' = Suc (build_count s) \<and> \<not> continuous_needs_build s')))"
  by (simp add: set_view_mode_def set_view_mode_state_def update_view_defs
        build_continuous_pdf_widgets_def Let_def)

theorem set_view_mode_reflowable_noop_continuous_dirty_witness:
  "current_book_type epub_win \<noteq> Some ''pdf'' \<and>
   set_view_mode ''continuous'' epub_win = Inr epub_win \<and>
   current_book_type continuous_win = Some ''pdf'' \<and> pages continuous_win \<noteq> [] \<and>
   \<not> continuous_needs_build continuous_win \<and>
   continuous_needs_build (set_view_mode_state ''continuous'' continuous_win) \<and>
   (\<exists>s'. set_view_mode ''continuous'' continuous_win = Inr s' \<and>
         view_mode s' = ''continuous'' \<and> build_count s' = Suc (build_count continuous_win) \<and>
         \<not> continuous_needs_build s')"
proof -
  have h: "current_book_type epub_win \<noteq> Some ''pdf''"
    "current_book_type continuous_win = Some ''pdf''" "pages continuous_win \<noteq> []"
    "\<not> continuous_needs_build continuous_win"
    by (simp_all add: epub_win_def continuous_win_def pdf_win_def fresh_win_def new_win_def)
  from h set_view_mode_reflowable_noop_continuous_dirty [of epub_win "''continuous''"]
    set_view_mode_reflowable_noop_continuous_dirty [of continuous_win "''continuous''"]
  show ?thesis by blast
qed

subsection \<open>Settings file\<close>

lemma interpolate_some_plain:
  "CHR ''%'' \<notin> set v \<Longrightarrow> depth \<le> 10 \<Longrightarrow> interpolate_some vars depth v = Inr v"
  by (simp add: interpolate_some.simps)

lemma setdefault_Inr:
  assumes "setdefault c (k, d) = Inr c'" and "sections c ''General'' \<noteq> None"
  shows "default_section c' = default_section c"
    and "name \<noteq> ''General'' \<Longrightarrow> sections c' name = sections c name"
    and "sections c' ''General'' \<noteq> None"
    and "get_option c' ''General'' k' =
           (if k' = k then
              (case get_option c ''General'' k of Some v \<Rightarrow> Some v | None \<Rightarrow> Some d)
            else get_option c ''General'' k')"
  using assms
  by (auto simp: setdefault_def get_option_def split: option.splits sum.splits)

lemma setdefault_returns:
  assumes "sections c ''General'' \<noteq> None"
    and "\<And>v. get_option c ''General'' k = Some v \<Longrightarrow> CHR ''%'' \<notin> set v"
  shows "\<exists>c'. setdefault c (k, d) = Inr c'"
  using assms
  by (auto simp: setdefault_def interpolate_some_plain split: option.splits sum.splits)

lemma with_general_facts:
  "sections (with_general c) ''General'' \<noteq> None"
  "default_section (with_general c) = default_section c"
  "name \<noteq> ''General'' \<Longrightarrow> sections (with_general c) name = sections c name"
  by (simp_all add: with_general_def)

lemma setdefault_each_Inr:
  assumes "setdefault_each c kvs = Inr c'" and "sections c ''General'' \<noteq> None"
    and "distinct (map fst kvs)"
  shows "default_section c' = default_section c \<and>
         (\<forall>name. name \<noteq> ''General'' \<longrightarrow> sections c' name = sections c name) \<and>
         (\<forall>k. get_option c' ''General'' k =
            (case get_option c ''General'' k of Some v \<Rightarrow> Some v | None \<Rightarrow> map_of kvs k))"
  using assms
proof (induction kvs arbitrary: c)
  case Nil
  then show ?case by (auto split: option.splits)
next
  case (Cons kv kvs)
  obtain k0 d0 where kv: "kv = (k0, d0)" by (cases kv)
  from Cons.prems(1) kv obtain c1 where s: "setdefault c (k0, d0) = Inr c1"
    and r: "setdefault_each c1 kvs = Inr c'"
    by (auto split: sum.splits)
  note f = setdefault_Inr [OF s Cons.prems(2)]
  have d: "distinct (map fst kvs)" and n: "k0 \<notin> fst ` set kvs"
    using Cons.prems(3) kv by auto
  from n have m: "map_of kvs k0 = None" by (simp add: map_of_eq_None_iff)
  from Cons.IH [OF r f(3) d] f(1,2) f(4) kv m show ?case
    by (auto split: option.splits)
qed

lemma setdefault_each_returns:
  assumes "sections c ''General'' \<noteq> None" and "distinct (map fst kvs)"
    and "\<And>k v. k \<in> fst ` set kvs \<Longrightarrow> get_option c ''General'' k = Some v \<Longrightarrow> CHR ''%'' \<notin> set v"
  shows "\<exists>c'. setdefault_each c kvs = Inr c'"
  using assms
proof (induction kvs arbitrary: c)
  case Nil
  then show ?case by simp
next
  case (Cons kv kvs)
  obtain k0 d0 where kv: "kv = (k0, d0)" by (cases kv)
  have "\<And>v. get_option c ''General'' k0 = Some v \<Longrightarrow> CHR ''%'' \<notin> set v"
    using Cons.prems(3) [of k0] kv by simp
  from setdefault_returns [OF Cons.prems(1) this] obtain c1 where
    s: "setdefault c (k0, d0) = Inr c1" by blast
  note f = setdefault_Inr [OF s Cons.prems(1)]
  have d: "distinct (map fst kvs)" and n: "k0 \<notin> fst ` set kvs"
    using Cons.prems(2) kv by auto
  have "\<And>k v. k \<in> fst ` set kvs \<Longrightarrow> get_option c1 ''General'' k = Some v \<Longrightarrow> CHR ''%'' \<notin> set v"
  proof -
    fix k v
    assume a: "k \<in> fst ` set kvs" and b: "get_option c1 ''General'' k = Some v"
    from a n have "k \<noteq> k0" by auto
    with b f(4) [of k] have "get_option c ''General'' k = Some v" by simp
    with Cons.prems(3) [of k v] a show "CHR ''%'' \<notin> set v" by simp
  qed
  from Cons.IH [OF f(3) d this] s kv show ?case by simp
qed

lemma stored_option_with_general:
  "stored_option c k = get_option (with_general c) ''General'' k"
  by (auto simp: stored_option_def with_general_def get_option_def split: option.splits)

lemma load_or_create_settings_completes:
  assumes "fst (load_or_create_settings file) = Inr c"
  shows "snd (load_or_create_settings file) = Parsed c"
    and "get_option c ''General'' k =
      (case stored_option (read_settings file) k of
         Some v \<Rightarrow> Some v
       | None \<Rightarrow> map_of defaults k)"
    and "default_section c = default_section (read_settings file)"
    and "name \<noteq> ''General'' \<Longrightarrow> sections c name = sections (read_settings file) name"
proof -
  from assms have e: "setdefault_each (with_general (read_settings file)) defaults = Inr c"
    by (auto simp: load_or_create_settings_def split: sum.splits)
  then show "snd (load_or_create_settings file) = Parsed c"
    by (simp add: load_or_create_settings_def)
  have dist: "distinct (map fst defaults)" by (simp add: defaults_def)
  note f = setdefault_each_Inr [OF e with_general_facts(1) dist]
  from f show "get_option c ''General'' k =
      (case stored_option (read_settings file) k of
         Some v \<Rightarrow> Some v
       | None \<Rightarrow> map_of defaults k)"
    by (simp add: stored_option_with_general)
  from f show "default_section c = default_section (read_settings file)"
    by (simp add: with_general_facts)
  from f show "name \<noteq> ''General'' \<Longrightarrow> sections c name = sections (read_settings file) name"
    by (simp add: with_general_facts)
qed

lemma load_or_create_settings_returns:
  assumes "\<And>k v. k \<in> fst ` set defaults \<Longrightarrow> stored_option (read_settings file) k = Some v
             \<Longrightarrow> CHR ''%'' \<notin> set v"
  shows "\<exists>c. fst (load_or_create_settings file) = Inr c"
proof -
  have dist: "distinct (map fst defaults)" by (simp add: defaults_def)
  from setdefault_each_returns [OF with_general_facts(1) dist, of "read_settings file"] assms
  obtain c where "setdefault_each (with_general (read_settings file)) defaults = Inr c"
    by (auto simp: stored_option_with_general)
  then show ?thesis by (simp add: load_or_create_settings_def)
qed

lemma load_or_create_settings_raises:
  assumes "fst (load_or_create_settings file) = Inl e"
  shows "snd (load_or_create_settings file) = file"
  using assms by (auto simp: load_or_create_settings_def split: sum.splits)

lemma new_settings:
  assumes "file = Absent \<or> file = Malformed"
  shows "\<exists>c. load_or_create_settings file = (Inr c, Parsed c) \<and>
          get_option c ''General'' ''theme'' = Some ''light'' \<and>
          get_option c ''General'' ''font_family'' = Some ''Segoe UI'' \<and>
          get_option c ''General'' ''font_size'' = Some ''12'' \<and>
          get_option c ''General'' ''language'' = Some ''en''"
proof -
  from assms have n: "stored_option (read_settings file) k = None" for k
    by (auto simp: read_settings_def new_config_def stored_option_def)
  from load_or_create_settings_returns [of "file"] n obtain c where
    c: "fst (load_or_create_settings file) = Inr c" by auto
  from load_or_create_settings_completes(1,2) [OF c] n c
  show ?thesis by (auto simp: defaults_def prod_eq_iff)
qed

text \<open>
  A file with one stored option and a section of its own: the stored theme is kept, the
  three other keys get their defaults, the other section is kept, and the result is
  written.
\<close>

lemma dark_settings_completed:
  "\<exists>c. load_or_create_settings dark_settings = (Inr c, Parsed c) \<and>
        get_option c ''General'' ''theme'' = Some ''dark'' \<and>
        get_option c ''General'' ''font_family'' = Some ''Segoe UI'' \<and>
        get_option c ''General'' ''font_size'' = Some ''12'' \<and>
        get_option c ''General'' ''language'' = Some ''en'' \<and>
        sections c ''Recent'' = Some Map.empty"
proof -
  have s: "stored_option (read_settings dark_settings) k =
      (if k = ''theme'' then Some ''dark'' else None)" for k
    by (simp add: dark_settings_def read_settings_def stored_option_def)
  have "\<exists>c. fst (load_or_create_settings dark_settings) = Inr c"
    by (rule load_or_create_settings_returns) (auto simp: s split: if_splits)
  then obtain c where c: "fst (load_or_create_settings dark_settings) = Inr c" by blast
  have r: "sections (read_settings dark_settings) ''Recent'' = Some Map.empty"
    by (simp add: dark_settings_def read_settings_def)
  from load_or_create_settings_completes [OF c] s r c
  show ?thesis by (auto simp: defaults_def prod_eq_iff)
qed

text \<open>
  C9. A missing key is not always filled in and written back. A stored value of one of
  the four keys that holds a lone percent sign is accepted by \<open>config.read\<close>, but
  \<open>general.setdefault\<close> reads it through the parser's interpolation, which raises
  \<open>InterpolationSyntaxError\<close>; the loop stands after the \<open>try\<close>, so the exception
  leaves \<open>_load_or_create_settings\<close> before the file is written. For the file
  \<open>percent_settings\<close> the keys \<open>theme\<close>, \<open>font_size\<close> and \<open>language\<close> are missing, the
  call raises, and the file is as it was.
\<close>

theorem percent_value_stops_startup:
  "load_or_create_settings percent_settings = (Inl InterpolationSyntaxError, percent_settings) \<and>
   stored_option (read_settings percent_settings) ''font_family'' = Some ''100% Sans'' \<and>
   stored_option (read_settings percent_settings) ''theme'' = None \<and>
   stored_option (read_settings percent_settings) ''font_size'' = None \<and>
   stored_option (read_settings percent_settings) ''language'' = None"
  by (simp add: load_or_create_settings_def percent_settings_def read_settings_def
        with_general_def defaults_def setdefault_def get_option_def stored_option_def
        interpolate_some.simps Let_def)

subsection \<open>The loaders\<close>

lemma load_pdf_pages_Returned:
  "load_pdf_pages ps s = Returned s' m \<Longrightarrow>
     m = None \<and> length (pages s') = length (pages s) + length ps \<and>
     pdf_images s' = pdf_images s @ map projr ps \<and>
     current_book_type s' = current_book_type s \<and> current_zoom s' = current_zoom s \<and>
     view_mode s' = view_mode s \<and> continuous_needs_build s' = continuous_needs_build s \<and>
     current_font_size s' = current_font_size s \<and> base_font_size s' = base_font_size s"
proof (induction ps s rule: load_pdf_pages.induct)
  case (1 s)
  then show ?case by simp
next
  case (2 e ps s)
  then show ?case by simp
next
  case (3 img ps s)
  from "3.prems" have "load_pdf_pages ps
       (s\<lparr>pdf_images := pdf_images s @ [img],
          pages := pages s @ [PdfPage (length (pages s))]\<rparr>) = Returned s' m"
    by simp
  from "3.IH" [OF this] show ?case by simp
qed

lemma load_pdf_pages_returns:
  "list_all (\<lambda>p. \<not> isl p) ps \<Longrightarrow> \<exists>s'. load_pdf_pages ps s = Returned s' None"
proof (induction ps s rule: load_pdf_pages.induct)
  case (1 s)
  then show ?case by simp
next
  case (2 e ps s)
  then show ?case by simp
next
  case (3 img ps s)
  then show ?case by simp
qed

lemma load_pdf_pages_Raised:
  "load_pdf_pages ps s = Raised e s' \<Longrightarrow> length (pages s') < length (pages s) + length ps"
proof (induction ps s rule: load_pdf_pages.induct)
  case (1 s)
  then show ?case by simp
next
  case (2 e ps s)
  then show ?case by simp
next
  case (3 img ps s)
  from "3.prems" have "load_pdf_pages ps
       (s\<lparr>pdf_images := pdf_images s @ [img],
          pages := pages s @ [PdfPage (length (pages s))]\<rparr>) = Raised e s'"
    by simp
  from "3.IH" [OF this] show ?case by simp
qed

lemma load_epub_pages_Returned:
  "load_epub_pages its s = Returned s' m \<Longrightarrow>
     m = None \<and> pages s' = pages s @ map (\<lambda>it. HtmlPage (projr (clean_html it))) its \<and>
     current_book_type s' = current_book_type s \<and> current_zoom s' = current_zoom s \<and>
     view_mode s' = view_mode s \<and> continuous_needs_build s' = continuous_needs_build s \<and>
     current_font_size s' = current_font_size s \<and> base_font_size s' = base_font_size s"
proof (induction its arbitrary: s)
  case Nil
  then show ?case by simp
next
  case (Cons it its)
  show ?case
  proof (cases "clean_html it")
    case (Inl e)
    with Cons.prems show ?thesis by simp
  next
    case (Inr html)
    with Cons.prems have "load_epub_pages its (s\<lparr>pages := pages s @ [HtmlPage html]\<rparr>) =
        Returned s' m" by simp
    from Cons.IH [OF this] Inr show ?thesis by simp
  qed
qed

lemma load_epub_pages_returns:
  "list_all (\<lambda>it. \<not> isl (clean_html it)) its \<Longrightarrow> \<exists>s'. load_epub_pages its s = Returned s' None"
proof (induction its arbitrary: s)
  case Nil
  then show ?case by simp
next
  case (Cons it its)
  then show ?case by (cases "clean_html it") simp_all
qed

lemma update_view_index_zero:
  "current_index s = 0 \<Longrightarrow> pages s = [] \<or> label_ok s \<Longrightarrow> \<exists>s'. update_view s = Inr s'"
  by (auto simp: update_view_defs py_getitem_def label_ok_def build_continuous_pdf_widgets_def
        Let_def)

lemma update_view_keeps:
  "update_view s = Inr s' \<Longrightarrow>
     pages s' = pages s \<and> current_index s' = current_index s \<and>
     current_book_type s' = current_book_type s \<and> current_zoom s' = current_zoom s \<and>
     current_font_size s' = current_font_size s \<and> base_font_size s' = base_font_size s \<and>
     view_mode s' = view_mode s \<and> pdf_images s' = pdf_images s \<and>
     current_book_path s' = current_book_path s \<and> font_family s' = font_family s \<and>
     (view_mode s = ''single'' \<or> current_book_type s \<noteq> Some ''pdf'' \<or> pages s = [] \<longrightarrow>
        continuous_needs_build s' = continuous_needs_build s)"
  by (auto simp: update_view_defs build_continuous_pdf_widgets_def Let_def
           split: if_splits sum.splits)

lemma load_pdf_fields:
  assumes "load_pdf file dlg s = Returned s1 m"
  shows "current_book_type s1 = Some ''pdf''" and "current_zoom s1 = 1"
    and "view_mode s1 = ''single''" and "continuous_needs_build s1"
  using assms
  by (auto simp: load_pdf_def Let_def split: fitz_open.splits if_splits
      dest!: load_pdf_pages_Returned)

lemma load_pdf_success:
  assumes "needs_pass doc \<longrightarrow> snd dlg \<and> fst dlg \<noteq> [] \<and> authenticate doc (fst dlg)"
    and "list_all (\<lambda>p. \<not> isl p) (doc_pages doc)"
  shows "\<exists>s1. load_pdf (FitzDoc doc) dlg s = Returned s1 None \<and>
           length (pages s1) = length (doc_pages doc) \<and>
           pdf_images s1 = map projr (doc_pages doc)"
proof -
  let ?s1 = "s\<lparr>current_book_type := Some ''pdf'', pages := [], pdf_images := [],
               current_zoom := 1, view_mode := ''single'', continuous_needs_build := True\<rparr>"
  from load_pdf_pages_returns [OF assms(2)] obtain s' where
    r: "load_pdf_pages (doc_pages doc) ?s1 = Returned s' None" by blast
  from load_pdf_pages_Returned [OF r] have
    "length (pages s') = length (doc_pages doc)" "pdf_images s' = map projr (doc_pages doc)"
    by simp_all
  moreover from r assms(1) have "load_pdf (FitzDoc doc) dlg s = Returned s' None"
    by (auto simp: load_pdf_def Let_def)
  ultimately show ?thesis by blast
qed

lemma load_epub_Returned:
  assumes "load_epub book s = Returned s' m"
  shows "pages s' \<noteq> [] \<and> m = None"
proof (cases book)
  case (ReadRaises e)
  with assms show ?thesis by (simp add: load_epub_def)
next
  case (Book items)
  let ?s0 = "s\<lparr>current_book_type := Some ''epub'', pages := [],
               current_font_size := base_font_size s\<rparr>"
  from assms Book have x: "extract_items items = None"
    by (auto simp: load_epub_def Let_def split: option.splits)
  show ?thesis
  proof (cases "load_epub_pages (filter is_document items) ?s0")
    case (Raised e s2)
    with assms Book x show ?thesis by (simp add: load_epub_def Let_def)
  next
    case (Returned s2 m2)
    from load_epub_pages_Returned [OF Returned] have "m2 = None" by simp
    with assms Book x Returned show ?thesis
      by (auto simp: load_epub_def Let_def split: if_splits)
  qed
qed

subsection \<open>Opening a file\<close>

lemma load_epub_fields:
  assumes "load_epub book s = Returned s1 m"
  shows "current_book_type s1 = Some ''epub''" and "base_font_size s1 = base_font_size s"
    and "current_font_size s1 = base_font_size s" and "current_zoom s1 = current_zoom s"
    and "view_mode s1 = view_mode s"
    and "continuous_needs_build s1 = continuous_needs_build s"
  using assms
  by (auto simp: load_epub_def Let_def
      split: read_epub.splits option.splits load_result.splits if_splits
      dest!: load_epub_pages_Returned)

lemma ext_nonempty: "lower (splitext_ext path) = ''.pdf'' \<or> lower (splitext_ext path) = ''.epub''
   \<Longrightarrow> path \<noteq> []"
  by (auto simp: splitext_ext_def basename_def lower_def Let_def)

lemma open_file_pdf:
  assumes "lower (splitext_ext path) = ''.pdf''"
  shows "open_file env path dlg s =
     (case load_pdf (fitz env path) dlg s of
        Raised e s1 \<Rightarrow> Inr (s1, Some (Failed_to_open e))
      | Returned s1 m \<Rightarrow>
          (case update_view (s1\<lparr>current_book_path := Some path,
                                current_book_title := basename path,
                                current_index := 0\<rparr>) of
             Inl e \<Rightarrow> Inl e
           | Inr s2 \<Rightarrow> Inr (s2, m)))"
  using assms ext_nonempty [of path] by (simp add: open_file_def Let_def)

lemma open_file_epub:
  assumes "lower (splitext_ext path) = ''.epub''"
  shows "open_file env path dlg s =
     (case load_epub (epub env path) s of
        Raised e s1 \<Rightarrow> Inr (s1, Some (Failed_to_open e))
      | Returned s1 m \<Rightarrow>
          (case update_view (s1\<lparr>current_book_path := Some path,
                                current_book_title := basename path,
                                current_index := 0\<rparr>) of
             Inl e \<Rightarrow> Inl e
           | Inr s2 \<Rightarrow> Inr (s2, m)))"
  using assms ext_nonempty [of path] by (simp add: open_file_def Let_def)

lemma finish_open:
  assumes "pages st = [] \<or> label_ok st"
  shows "\<exists>s2. update_view (st\<lparr>current_book_path := Some path, current_book_title := title,
                         current_index := 0\<rparr>) = Inr s2 \<and>
        current_index s2 = 0 \<and> pages s2 = pages st \<and>
        current_book_type s2 = current_book_type st \<and> current_zoom s2 = current_zoom st \<and>
        current_font_size s2 = current_font_size st \<and> view_mode s2 = view_mode st \<and>
        pdf_images s2 = pdf_images st \<and> current_book_path s2 = Some path \<and>
        (view_mode st = ''single'' \<or> current_book_type st \<noteq> Some ''pdf'' \<or> pages st = [] \<longrightarrow>
           continuous_needs_build s2 = continuous_needs_build st) \<and>
        (pages st = [] \<longrightarrow> shown s2 = ShowNoDocument)"
proof -
  let ?s = "st\<lparr>current_book_path := Some path, current_book_title := title, current_index := 0\<rparr>"
  from assms have "pages ?s = [] \<or> label_ok ?s" by (simp add: label_ok_def)
  from update_view_index_zero [of ?s, OF _ this] obtain s2 where r: "update_view ?s = Inr s2"
    by auto
  have "pages st = [] \<longrightarrow> shown s2 = ShowNoDocument"
    using r by (auto simp: update_view_defs)
  with update_view_keeps [OF r] r show ?thesis by simp
qed

lemma open_file_returns:
  assumes "lower (splitext_ext path) \<noteq> ''.epub'' \<or> base_font_size s \<noteq> 0"
  shows "\<exists>r. open_file env path dlg s = Inr r"
proof (cases "path = []")
  case True
  then show ?thesis by (simp add: open_file_def)
next
  case False
  show ?thesis
  proof (cases "lower (splitext_ext path) = ''.pdf''")
    case True
    show ?thesis
    proof (cases "load_pdf (fitz env path) dlg s")
      case (Returned s1 m)
      from load_pdf_fields(1) [OF Returned] have "pages s1 = [] \<or> label_ok s1"
        by (simp add: label_ok_def)
      from finish_open [where st = s1 and path = path and title = "basename path", OF this]
      obtain s2 where "update_view (s1\<lparr>current_book_path := Some path,
          current_book_title := basename path, current_index := 0\<rparr>) = Inr s2" by blast
      with True Returned show ?thesis by (simp add: open_file_pdf)
    next
      case (Raised e s1)
      with True show ?thesis by (simp add: open_file_pdf)
    qed
  next
    case npdf: False
    show ?thesis
    proof (cases "lower (splitext_ext path) = ''.epub''")
      case True
      show ?thesis
      proof (cases "load_epub (epub env path) s")
        case (Returned s1 m)
        from load_epub_fields(2) [OF Returned] assms True have "pages s1 = [] \<or> label_ok s1"
          by (simp add: label_ok_def)
        from finish_open [where st = s1 and path = path and title = "basename path", OF this]
        obtain s2 where "update_view (s1\<lparr>current_book_path := Some path,
            current_book_title := basename path, current_index := 0\<rparr>) = Inr s2" by blast
        with True Returned show ?thesis by (simp add: open_file_epub)
      next
        case (Raised e s1)
        with True show ?thesis by (simp add: open_file_epub)
      qed
    next
      case False
      with npdf \<open>path \<noteq> []\<close> show ?thesis by (simp add: open_file_def Let_def)
    qed
  qed
qed

lemma open_file_no_pages:
  assumes "load = Returned s1 m" and "pages s1 = []"
    and "open_file env path dlg s =
      (case load of
        Raised e s1 \<Rightarrow> Inr (s1, Some (Failed_to_open e))
      | Returned s1 m \<Rightarrow>
          (case update_view (s1\<lparr>current_book_path := Some path,
                                current_book_title := basename path,
                                current_index := 0\<rparr>) of
             Inl e \<Rightarrow> Inl e
           | Inr s2 \<Rightarrow> Inr (s2, m)))"
  shows "\<exists>s'. open_file env path dlg s = Inr (s', m) \<and> pages s' = [] \<and>
           shown s' = ShowNoDocument"
proof -
  from assms(2) have "pages s1 = [] \<or> label_ok s1" by simp
  from finish_open [where st = s1 and path = path and title = "basename path", OF this] assms(2)
  obtain s2 where "update_view (s1\<lparr>current_book_path := Some path,
      current_book_title := basename path, current_index := 0\<rparr>) = Inr s2"
    "pages s2 = []" "shown s2 = ShowNoDocument" by auto
  with assms(1,3) show ?thesis by simp
qed

lemma update_view_raises_only_division:
  assumes "update_view st = Inl e" and "pages st = [] \<or> index_valid st"
  shows "e = ZeroDivisionError \<and> current_book_type st \<noteq> Some ''pdf'' \<and> base_font_size st = 0"
  using assms
  by (auto simp: update_view_defs py_getitem_def index_valid_def
      build_continuous_pdf_widgets_def Let_def split: if_splits sum.splits)

lemma load_pdf_message:
  assumes "load_pdf file dlg s = Returned s1 (Some m)"
  shows "pages s1 = []"
  using assms
  by (auto simp: load_pdf_def Let_def split: fitz_open.splits if_splits
      dest!: load_pdf_pages_Returned)

lemma open_file_raises_only:
  assumes r: "open_file env path dlg s = Inl e"
  shows "e = ZeroDivisionError \<and> lower (splitext_ext path) = ''.epub'' \<and>
      base_font_size s = 0 \<and>
      (\<exists>s2. load_epub (epub env path) s = Returned s2 None \<and> pages s2 \<noteq> [])"
proof -
  have x: "lower (splitext_ext path) = ''.epub''" and z: "base_font_size s = 0"
    using open_file_returns [of path s env dlg] r by auto
  from r x obtain s2 m where l: "load_epub (epub env path) s = Returned s2 m"
    and u: "update_view (s2\<lparr>current_book_path := Some path,
        current_book_title := basename path, current_index := 0\<rparr>) = Inl e"
    by (auto simp: open_file_epub split: load_result.splits sum.splits)
  from load_epub_Returned [OF l] have n: "pages s2 \<noteq> []" "m = None" by simp_all
  from n have "index_valid (s2\<lparr>current_book_path := Some path,
        current_book_title := basename path, current_index := 0\<rparr>)"
    by (simp add: index_valid_def)
  with update_view_raises_only_division [OF u] have "e = ZeroDivisionError" by simp
  with x z l n show ?thesis by auto
qed

lemma sample_exts:
  "lower (splitext_ext ''/home/u/two.pdf'') = ''.pdf''"
  "lower (splitext_ext ''/home/u/damaged.pdf'') = ''.pdf''"
  "lower (splitext_ext ''/home/u/locked.pdf'') = ''.pdf''"
  "lower (splitext_ext ''/home/u/missing.pdf'') = ''.pdf''"
  "lower (splitext_ext ''/home/u/story.EPUB'') = ''.epub''"
  "lower (splitext_ext ''/home/u/cover-only.epub'') = ''.epub''"
  "lower (splitext_ext ''/home/u/notes.txt'') = ''.txt''"
  by (simp_all add: lower_def lower_char_def splitext_ext_def basename_def)

lemmas sample_defs = sample_env_def plain_pdf_def locked_pdf_def chapter_item_def stylesheet_def
  continuous_win_def pdf_win_def epub_win_def fresh_win_def new_win_def story_win_def
  damaged_win_def large_font_win_def start48_win_def story48_win_def broken_item_def

text \<open>
  C3, as amended. An open of a PDF that succeeds (the engine opens the file, the password,
  if one is needed, is accepted, and every page renders) leaves page index 0, zoom factor
  1, single-page mode and the flag \<open>_continuous_needs_build\<close> set, whatever the window was
  before. An open of an EPUB that succeeds (with a base font size other than 0, which
  \<open>_update_zoom_label\<close> divides by) leaves page index 0, the font size equal to the
  base font size and a non-empty page list; \<open>load_epub\<close> assigns neither the zoom factor nor
  the layout mode nor the flag, so these three keep the values they had.
\<close>

theorem open_resets_view_state:
  "(lower (splitext_ext path) = ''.pdf'' \<and> fitz env path = FitzDoc doc \<and>
    (needs_pass doc \<longrightarrow> snd dlg \<and> fst dlg \<noteq> [] \<and> authenticate doc (fst dlg)) \<and>
    list_all (\<lambda>p. \<not> isl p) (doc_pages doc) \<longrightarrow>
      (\<exists>s'. open_file env path dlg s = Inr (s', None) \<and>
         current_book_type s' = Some ''pdf'' \<and> current_book_path s' = Some path \<and>
         length (pages s') = length (doc_pages doc) \<and>
         pdf_images s' = map projr (doc_pages doc) \<and>
         current_index s' = 0 \<and> current_zoom s' = 1 \<and> view_mode s' = ''single'' \<and>
         continuous_needs_build s')) \<and>
   (lower (splitext_ext path) = ''.epub'' \<and> epub env path = Book items \<and>
    extract_items items = None \<and>
    list_all (\<lambda>it. \<not> isl (clean_html it)) (filter is_document items) \<and>
    base_font_size s \<noteq> 0 \<longrightarrow>
      (\<exists>s'. open_file env path dlg s = Inr (s', None) \<and>
         current_book_type s' = Some ''epub'' \<and> current_book_path s' = Some path \<and>
         pages s' \<noteq> [] \<and>
         current_index s' = 0 \<and> current_font_size s' = base_font_size s \<and>
         current_zoom s' = current_zoom s \<and> view_mode s' = view_mode s \<and>
         continuous_needs_build s' = continuous_needs_build s))"
proof (intro conjI impI)
  assume a: "lower (splitext_ext path) = ''.pdf'' \<and> fitz env path = FitzDoc doc \<and>
    (needs_pass doc \<longrightarrow> snd dlg \<and> fst dlg \<noteq> [] \<and> authenticate doc (fst dlg)) \<and>
    list_all (\<lambda>p. \<not> isl p) (doc_pages doc)"
  then obtain s1 where l: "load_pdf (FitzDoc doc) dlg s = Returned s1 None"
    and n: "length (pages s1) = length (doc_pages doc)"
    and i: "pdf_images s1 = map projr (doc_pages doc)"
    using load_pdf_success [of doc dlg s] by blast
  note f = load_pdf_fields [OF l]
  from f(1) have "pages s1 = [] \<or> label_ok s1" by (simp add: label_ok_def)
  from finish_open [where st = s1 and path = path and title = "basename path", OF this]
  obtain s2 where
    u: "update_view (s1\<lparr>current_book_path := Some path, current_book_title := basename path,
          current_index := 0\<rparr>) = Inr s2"
    and g: "current_index s2 = 0" "pages s2 = pages s1"
      "current_book_type s2 = current_book_type s1" "current_zoom s2 = current_zoom s1"
      "view_mode s2 = view_mode s1" "pdf_images s2 = pdf_images s1"
      "current_book_path s2 = Some path"
      "view_mode s1 = ''single'' \<or> current_book_type s1 \<noteq> Some ''pdf'' \<or> pages s1 = [] \<longrightarrow>
           continuous_needs_build s2 = continuous_needs_build s1"
    by blast
  from a l u have "open_file env path dlg s = Inr (s2, None)"
    by (simp add: open_file_pdf)
  with f g n i show "\<exists>s'. open_file env path dlg s = Inr (s', None) \<and>
         current_book_type s' = Some ''pdf'' \<and> current_book_path s' = Some path \<and>
         length (pages s') = length (doc_pages doc) \<and>
         pdf_images s' = map projr (doc_pages doc) \<and>
         current_index s' = 0 \<and> current_zoom s' = 1 \<and> view_mode s' = ''single'' \<and>
         continuous_needs_build s'"
    by simp
next
  assume a: "lower (splitext_ext path) = ''.epub'' \<and> epub env path = Book items \<and>
    extract_items items = None \<and>
    list_all (\<lambda>it. \<not> isl (clean_html it)) (filter is_document items) \<and>
    base_font_size s \<noteq> 0"
  let ?s0 = "s\<lparr>current_book_type := Some ''epub'', pages := [],
               current_font_size := base_font_size s\<rparr>"
  from a load_epub_pages_returns [of "filter is_document items" ?s0] obtain sp where
    p: "load_epub_pages (filter is_document items) ?s0 = Returned sp None" by blast
  note pf = load_epub_pages_Returned [OF p]
  define s1 where "s1 = (if pages sp = []
      then sp\<lparr>pages := pages sp @ [HtmlPage ''<h3>No readable content found.</h3>'']\<rparr> else sp)"
  from a p have l: "load_epub (epub env path) s = Returned s1 None"
    by (simp add: load_epub_def s1_def Let_def)
  have f: "pages s1 \<noteq> []" "current_book_type s1 = Some ''epub''"
    "current_font_size s1 = base_font_size s" "current_zoom s1 = current_zoom s"
    "view_mode s1 = view_mode s" "continuous_needs_build s1 = continuous_needs_build s"
    using pf by (simp_all add: s1_def)
  from pf a have "pages s1 = [] \<or> label_ok s1" by (simp add: s1_def label_ok_def)
  from finish_open [where st = s1 and path = path and title = "basename path", OF this]
  obtain s2 where
    u: "update_view (s1\<lparr>current_book_path := Some path, current_book_title := basename path,
          current_index := 0\<rparr>) = Inr s2"
    and g: "current_index s2 = 0" "pages s2 = pages s1"
      "current_book_type s2 = current_book_type s1" "current_zoom s2 = current_zoom s1"
      "current_font_size s2 = current_font_size s1"
      "view_mode s2 = view_mode s1" "current_book_path s2 = Some path"
      "view_mode s1 = ''single'' \<or> current_book_type s1 \<noteq> Some ''pdf'' \<or> pages s1 = [] \<longrightarrow>
           continuous_needs_build s2 = continuous_needs_build s1"
    by blast
  from a l u have "open_file env path dlg s = Inr (s2, None)"
    by (simp add: open_file_epub)
  with f g show "\<exists>s'. open_file env path dlg s = Inr (s', None) \<and>
         current_book_type s' = Some ''epub'' \<and> current_book_path s' = Some path \<and>
         pages s' \<noteq> [] \<and>
         current_index s' = 0 \<and> current_font_size s' = base_font_size s \<and>
         current_zoom s' = current_zoom s \<and> view_mode s' = view_mode s \<and>
         continuous_needs_build s' = continuous_needs_build s"
    by simp
qed

theorem open_resets_view_state_witness:
  "lower (splitext_ext ''/home/u/locked.pdf'') = ''.pdf'' \<and>
   current_index continuous_win = 2 \<and> current_zoom continuous_win = 2 \<and>
   view_mode continuous_win = ''continuous'' \<and> \<not> continuous_needs_build continuous_win \<and>
   (\<exists>s'. open_file sample_env ''/home/u/locked.pdf'' (''secret'', True) continuous_win =
           Inr (s', None) \<and>
         length (pages s') = 1 \<and> current_index s' = 0 \<and> current_zoom s' = 1 \<and>
         view_mode s' = ''single'' \<and> continuous_needs_build s') \<and>
   lower (splitext_ext ''/home/u/story.EPUB'') = ''.epub'' \<and>
   (\<exists>s'. open_file sample_env ''/home/u/story.EPUB'' ([], False) continuous_win =
           Inr (s', None) \<and>
         pages s' \<noteq> [] \<and> current_index s' = 0 \<and> current_font_size s' = 12 \<and>
         current_zoom s' = 2 \<and> view_mode s' = ''continuous'' \<and> \<not> continuous_needs_build s')"
proof -
  have h: "current_index continuous_win = 2" "current_zoom continuous_win = 2"
    "view_mode continuous_win = ''continuous''" "\<not> continuous_needs_build continuous_win"
    "base_font_size continuous_win = 12" "base_font_size continuous_win \<noteq> 0"
    by (simp_all add: sample_defs)
  have p: "fitz sample_env ''/home/u/locked.pdf'' =
      FitzDoc \<lparr>needs_pass = True, authenticate = (\<lambda>pw. pw = ''secret''),
               doc_pages = [Inr (600, 800)]\<rparr>"
    by (simp add: sample_defs)
  have e: "epub sample_env ''/home/u/story.EPUB'' = Book [stylesheet, chapter_item ''<p>a</p>'']"
    by (simp add: sample_defs)
  have x: "extract_items [stylesheet, chapter_item ''<p>a</p>''] = None"
    "list_all (\<lambda>it. \<not> isl (clean_html it))
       (filter is_document [stylesheet, chapter_item ''<p>a</p>''])"
    by (simp_all add: sample_defs)
  from open_resets_view_state [where path = "''/home/u/locked.pdf''" and env = sample_env
      and doc = "\<lparr>needs_pass = True, authenticate = (\<lambda>pw. pw = ''secret''),
                 doc_pages = [Inr (600, 800)]\<rparr>"
      and dlg = "(''secret'', True)" and s = continuous_win] p sample_exts(3)
  have a: "\<exists>s'. open_file sample_env ''/home/u/locked.pdf'' (''secret'', True) continuous_win =
           Inr (s', None) \<and>
         length (pages s') = 1 \<and> current_index s' = 0 \<and> current_zoom s' = 1 \<and>
         view_mode s' = ''single'' \<and> continuous_needs_build s'"
    by auto
  from open_resets_view_state [where path = "''/home/u/story.EPUB''" and env = sample_env
      and items = "[stylesheet, chapter_item ''<p>a</p>'']" and dlg = "([], False)"
      and s = continuous_win] e x sample_exts(5) h
  have b: "\<exists>s'. open_file sample_env ''/home/u/story.EPUB'' ([], False) continuous_win =
           Inr (s', None) \<and>
         pages s' \<noteq> [] \<and> current_index s' = 0 \<and> current_font_size s' = 12 \<and>
         current_zoom s' = 2 \<and> view_mode s' = ''continuous'' \<and> \<not> continuous_needs_build s'"
    by auto
  from h a b sample_exts(3,5) show ?thesis by blast
qed

text \<open>
  The specification's sentence for C3 does not hold for an EPUB: opened from a window in
  continuous mode at zoom 2 with the layout built, the window stays in continuous mode at
  zoom 2 with the flag clear.
\<close>

theorem open_epub_keeps_layout_counterexample:
  "open_file sample_env ''/home/u/story.EPUB'' ([], False) continuous_win =
     Inr (story_win, None) \<and>
   pages story_win = [HtmlPage ''<p>a</p>''] \<and> current_index story_win = 0 \<and>
   view_mode story_win = ''continuous'' \<and> \<not> continuous_needs_build story_win \<and>
   current_zoom story_win = 2"
  by (simp add: open_file_epub sample_exts load_epub_def sample_defs basename_def
        update_view_defs py_getitem_def Let_def)

subsection \<open>The index invariant\<close>

text \<open>
  Every handler except an open that ends in the error box keeps the index valid for the
  page list: navigation moves inside the list, the zoom, layout and settings handlers
  assign neither the list nor the index, and an open that returns normally sets index 0.
\<close>

lemma update_view_index_invariant:
  "update_view s = Inr s' \<Longrightarrow> index_invariant s \<Longrightarrow> index_invariant s'"
  using update_view_frame [of s s'] by (simp add: index_invariant_def index_valid_def)

lemma navigation_keeps_index_invariant:
  assumes "index_invariant s"
  shows "go_prev s = Inr s' \<Longrightarrow> index_invariant s'"
    and "go_next s = Inr s' \<Longrightarrow> index_invariant s'"
    and "go_to_page_dialog typed ok s = Inr s' \<Longrightarrow> index_invariant s'"
proof -
  assume "go_prev s = Inr s'"
  with assms show "index_invariant s'"
    by (auto simp: go_prev_def index_invariant_def index_valid_def split: if_splits
        dest!: update_view_frame)
next
  assume "go_next s = Inr s'"
  with assms show "index_invariant s'"
    by (auto simp: go_next_def index_invariant_def index_valid_def split: if_splits
        dest!: update_view_frame)
next
  assume "go_to_page_dialog typed ok s = Inr s'"
  with assms show "index_invariant s'"
    by (auto simp: go_to_page_dialog_def index_invariant_def index_valid_def
        QInputDialog_getInt_def Let_def split: if_splits dest!: update_view_frame)
qed

lemma other_handlers_keep_index_invariant:
  assumes "index_invariant s"
  shows "zoom_in s = Inr s' \<Longrightarrow> index_invariant s'"
    and "zoom_out s = Inr s' \<Longrightarrow> index_invariant s'"
    and "zoom_label_clicked typed ok s = Inr s' \<Longrightarrow> index_invariant s'"
    and "set_view_mode mode s = Inr s' \<Longrightarrow> index_invariant s'"
    and "open_settings_dialog accepted values s = Inr s' \<Longrightarrow> index_invariant s'"
proof -
  assume "zoom_in s = Inr s'"
  with assms show "index_invariant s'"
    by (auto simp: zoom_in_def index_invariant_def index_valid_def zoom_states_frame
        split: if_splits dest!: update_view_frame)
next
  assume "zoom_out s = Inr s'"
  with assms show "index_invariant s'"
    by (auto simp: zoom_out_def index_invariant_def index_valid_def zoom_states_frame
        split: if_splits dest!: update_view_frame)
next
  assume "zoom_label_clicked typed ok s = Inr s'"
  with assms show "index_invariant s'"
    by (auto simp: zoom_label_clicked_def index_invariant_def index_valid_def zoom_states_frame
        Let_def split: if_splits dest!: update_view_frame)
next
  assume "set_view_mode mode s = Inr s'"
  with assms show "index_invariant s'"
    by (auto simp: set_view_mode_def set_view_mode_state_def index_invariant_def index_valid_def
        split: if_splits dest!: update_view_frame)
next
  assume "open_settings_dialog accepted values s = Inr s'"
  with assms show "index_invariant s'"
    by (auto simp: open_settings_dialog_def index_invariant_def index_valid_def
        split: if_splits dest!: update_view_frame)
qed

lemma open_file_index_invariant:
  assumes "open_file env path dlg s = Inr (s', m)" and "index_invariant s"
    and "\<forall>e. m \<noteq> Some (Failed_to_open e)"
  shows "index_invariant s'"
proof (cases "path = []")
  case True
  with assms show ?thesis by (simp add: open_file_def)
next
  case False
  have fin: "index_invariant s2" if "update_view (s1\<lparr>current_book_path := Some path,
      current_book_title := basename path, current_index := 0\<rparr>) = Inr s2" for s1 s2
    using update_view_frame [OF that]
    by (cases "pages s1") (simp_all add: index_invariant_def index_valid_def)
  show ?thesis
  proof (cases "lower (splitext_ext path) = ''.pdf''")
    case True
    with assms(1,3) fin show ?thesis
      by (auto simp: open_file_pdf split: load_result.splits sum.splits)
  next
    case npdf: False
    show ?thesis
    proof (cases "lower (splitext_ext path) = ''.epub''")
      case True
      with assms(1,3) fin show ?thesis
        by (auto simp: open_file_epub split: load_result.splits sum.splits)
    next
      case False
      with npdf \<open>path \<noteq> []\<close> assms(1,2) show ?thesis by (simp add: open_file_def Let_def)
    qed
  qed
qed

text \<open>
  C2. The page index is not always valid for a non-empty page list. \<open>load_pdf\<close> empties
  \<open>self.pages\<close> and appends page by page; when a page raises, \<open>open_file\<close> shows the
  error and returns before \<open>self.current_index = 0\<close>. From the last page of a three-page
  PDF, opening a PDF whose second page raises leaves one page and the old index 2.
\<close>

theorem failed_open_keeps_old_index:
  "open_file sample_env ''/home/u/damaged.pdf'' ([], False) pdf_win =
     Inr (damaged_win, Some (Failed_to_open EngineError)) \<and>
   index_invariant pdf_win \<and>
   pages damaged_win = [PdfPage 0] \<and> current_index damaged_win = 2 \<and>
   \<not> index_invariant damaged_win"
  by (simp add: open_file_pdf sample_exts load_pdf_def sample_defs index_valid_def
        index_invariant_def Let_def)

text \<open>
  C4, as amended. Every failed open is reported by a message box and \<open>open_file\<close> returns
  normally: for an unsupported extension, for a cancelled, empty or wrong password
  (whatever message \<open>load_pdf\<close> returns), and for an exception of the engine at any point
  of loading. The only exception that can leave \<open>open_file\<close> is the division by a zero
  base font size in \<open>_update_zoom_label\<close>, after an EPUB has been loaded without error.
  An unsupported extension leaves the window unchanged, so a document that was open stays
  open. A cancelled or empty password and a wrong password leave an empty page list and
  the no-document placeholder on screen. An exception of the engine before the first page
  is loaded (from \<open>fitz.open\<close>, from \<open>epub.read_epub\<close>, or while the items of the book are
  written out) leaves an empty page list; after a later one the window is as the loader
  left it.
\<close>

theorem open_failure_reported:
  "(path \<noteq> [] \<and> lower (splitext_ext path) \<noteq> ''.pdf'' \<and>
    lower (splitext_ext path) \<noteq> ''.epub'' \<longrightarrow>
      open_file env path dlg s = Inr (s, Some Unsupported_file)) \<and>
   (lower (splitext_ext path) = ''.pdf'' \<and> fitz env path = FitzDoc doc \<and> needs_pass doc \<and>
    (\<not> snd dlg \<or> fst dlg = []) \<longrightarrow>
      (\<exists>s'. open_file env path dlg s = Inr (s', Some Cancelled) \<and> pages s' = [] \<and>
            shown s' = ShowNoDocument)) \<and>
   (lower (splitext_ext path) = ''.pdf'' \<and> fitz env path = FitzDoc doc \<and> needs_pass doc \<and>
    snd dlg \<and> fst dlg \<noteq> [] \<and> \<not> authenticate doc (fst dlg) \<longrightarrow>
      (\<exists>s'. open_file env path dlg s = Inr (s', Some Incorrect_password) \<and> pages s' = [] \<and>
            shown s' = ShowNoDocument)) \<and>
   (lower (splitext_ext path) = ''.pdf'' \<and>
    load_pdf (fitz env path) dlg s = Returned s1 (Some m) \<longrightarrow>
      (\<exists>s'. open_file env path dlg s = Inr (s', Some m) \<and> pages s' = [] \<and>
            shown s' = ShowNoDocument)) \<and>
   (lower (splitext_ext path) = ''.pdf'' \<and> load_pdf (fitz env path) dlg s = Raised e s1 \<longrightarrow>
      open_file env path dlg s = Inr (s1, Some (Failed_to_open e))) \<and>
   (lower (splitext_ext path) = ''.epub'' \<and> load_epub (epub env path) s = Raised e s1 \<longrightarrow>
      open_file env path dlg s = Inr (s1, Some (Failed_to_open e))) \<and>
   (lower (splitext_ext path) = ''.pdf'' \<and> fitz env path = FitzRaises e \<longrightarrow>
      (\<exists>s'. open_file env path dlg s = Inr (s', Some (Failed_to_open e)) \<and> pages s' = [])) \<and>
   (lower (splitext_ext path) = ''.epub'' \<and> epub env path = ReadRaises e \<longrightarrow>
      (\<exists>s'. open_file env path dlg s = Inr (s', Some (Failed_to_open e)) \<and> pages s' = [])) \<and>
   (lower (splitext_ext path) = ''.epub'' \<and> epub env path = Book items \<and>
    extract_items items = Some e \<longrightarrow>
      (\<exists>s'. open_file env path dlg s = Inr (s', Some (Failed_to_open e)) \<and> pages s' = [])) \<and>
   (open_file env path dlg s = Inl e \<longrightarrow>
      e = ZeroDivisionError \<and> lower (splitext_ext path) = ''.epub'' \<and> base_font_size s = 0 \<and>
      (\<exists>s2. load_epub (epub env path) s = Returned s2 None \<and> pages s2 \<noteq> []))"
proof (intro conjI impI)
  assume "path \<noteq> [] \<and> lower (splitext_ext path) \<noteq> ''.pdf'' \<and>
    lower (splitext_ext path) \<noteq> ''.epub''"
  then show "open_file env path dlg s = Inr (s, Some Unsupported_file)"
    by (simp add: open_file_def Let_def)
next
  assume a: "lower (splitext_ext path) = ''.pdf'' \<and> fitz env path = FitzDoc doc \<and>
    needs_pass doc \<and> (\<not> snd dlg \<or> fst dlg = [])"
  let ?s1 = "s\<lparr>current_book_type := Some ''pdf'', pages := [], pdf_images := [],
               current_zoom := 1, view_mode := ''single'', continuous_needs_build := True\<rparr>"
  from a have "load_pdf (fitz env path) dlg s = Returned ?s1 (Some Cancelled)"
    by (auto simp: load_pdf_def Let_def)
  from open_file_no_pages [OF this _ open_file_pdf] a
  show "\<exists>s'. open_file env path dlg s = Inr (s', Some Cancelled) \<and> pages s' = [] \<and>
      shown s' = ShowNoDocument" by simp
next
  assume a: "lower (splitext_ext path) = ''.pdf'' \<and> fitz env path = FitzDoc doc \<and>
    needs_pass doc \<and> snd dlg \<and> fst dlg \<noteq> [] \<and> \<not> authenticate doc (fst dlg)"
  let ?s1 = "s\<lparr>current_book_type := Some ''pdf'', pages := [], pdf_images := [],
               current_zoom := 1, view_mode := ''single'', continuous_needs_build := True\<rparr>"
  from a have "load_pdf (fitz env path) dlg s = Returned ?s1 (Some Incorrect_password)"
    by (auto simp: load_pdf_def Let_def)
  from open_file_no_pages [OF this _ open_file_pdf] a
  show "\<exists>s'. open_file env path dlg s = Inr (s', Some Incorrect_password) \<and> pages s' = [] \<and>
      shown s' = ShowNoDocument" by simp
next
  assume a: "lower (splitext_ext path) = ''.pdf'' \<and>
    load_pdf (fitz env path) dlg s = Returned s1 (Some m)"
  then have l: "load_pdf (fitz env path) dlg s = Returned s1 (Some m)" by simp
  from open_file_no_pages [OF l load_pdf_message [OF l] open_file_pdf] a
  show "\<exists>s'. open_file env path dlg s = Inr (s', Some m) \<and> pages s' = [] \<and>
      shown s' = ShowNoDocument" by simp
next
  assume "lower (splitext_ext path) = ''.pdf'' \<and> load_pdf (fitz env path) dlg s = Raised e s1"
  then show "open_file env path dlg s = Inr (s1, Some (Failed_to_open e))"
    by (simp add: open_file_pdf)
next
  assume "lower (splitext_ext path) = ''.epub'' \<and> load_epub (epub env path) s = Raised e s1"
  then show "open_file env path dlg s = Inr (s1, Some (Failed_to_open e))"
    by (simp add: open_file_epub)
next
  assume "lower (splitext_ext path) = ''.pdf'' \<and> fitz env path = FitzRaises e"
  then show "\<exists>s'. open_file env path dlg s = Inr (s', Some (Failed_to_open e)) \<and> pages s' = []"
    by (simp add: open_file_pdf load_pdf_def Let_def)
next
  assume "lower (splitext_ext path) = ''.epub'' \<and> epub env path = ReadRaises e"
  then show "\<exists>s'. open_file env path dlg s = Inr (s', Some (Failed_to_open e)) \<and> pages s' = []"
    by (simp add: open_file_epub load_epub_def Let_def)
next
  assume "lower (splitext_ext path) = ''.epub'' \<and> epub env path = Book items \<and>
    extract_items items = Some e"
  then show "\<exists>s'. open_file env path dlg s = Inr (s', Some (Failed_to_open e)) \<and> pages s' = []"
    by (simp add: open_file_epub load_epub_def Let_def)
qed (auto dest: open_file_raises_only)

theorem open_failure_reported_witness:
  "lower (splitext_ext ''/home/u/notes.txt'') = ''.txt'' \<and>
   open_file sample_env ''/home/u/notes.txt'' ([], False) pdf_win =
     Inr (pdf_win, Some Unsupported_file) \<and>
   lower (splitext_ext ''/home/u/locked.pdf'') = ''.pdf'' \<and>
   (\<exists>s'. open_file sample_env ''/home/u/locked.pdf'' (''secret'', False) pdf_win =
           Inr (s', Some Cancelled) \<and> pages s' = [] \<and> shown s' = ShowNoDocument) \<and>
   (\<exists>s'. open_file sample_env ''/home/u/locked.pdf'' (''guess'', True) pdf_win =
           Inr (s', Some Incorrect_password) \<and> pages s' = [] \<and> shown s' = ShowNoDocument) \<and>
   load_pdf (fitz sample_env ''/home/u/damaged.pdf'') ([], False) pdf_win =
     Raised EngineError damaged_win \<and>
   open_file sample_env ''/home/u/damaged.pdf'' ([], False) pdf_win =
     Inr (damaged_win, Some (Failed_to_open EngineError)) \<and>
   (\<exists>s'. open_file sample_env ''/home/u/missing.pdf'' ([], False) pdf_win =
           Inr (s', Some (Failed_to_open EngineError)) \<and> pages s' = []) \<and>
   lower (splitext_ext ''/home/u/gone.epub'') = ''.epub'' \<and>
   (\<exists>s'. open_file sample_env ''/home/u/gone.epub'' ([], False) pdf_win =
           Inr (s', Some (Failed_to_open EngineError)) \<and> pages s' = []) \<and>
   extract_items [stylesheet, broken_item] = Some EngineError \<and>
   (\<exists>s'. open_file (sample_env\<lparr>epub := \<lambda>p. Book [stylesheet, broken_item]\<rparr>)
           ''/home/u/gone.epub'' ([], False) pdf_win =
           Inr (s', Some (Failed_to_open EngineError)) \<and> pages s' = []) \<and>
   open_file sample_env ''/home/u/story.EPUB'' ([], False) (fresh_win\<lparr>base_font_size := 0\<rparr>) =
     Inl ZeroDivisionError \<and>
   (\<exists>s2. load_epub (epub sample_env ''/home/u/story.EPUB'') (fresh_win\<lparr>base_font_size := 0\<rparr>) =
           Returned s2 None \<and> pages s2 \<noteq> [])"
proof -
  let ?doc = "\<lparr>needs_pass = True, authenticate = (\<lambda>pw. pw = ''secret''),
               doc_pages = [Inr (600, 800)]\<rparr>"
  let ?env = "sample_env\<lparr>epub := \<lambda>p. Book [stylesheet, broken_item]\<rparr>"
  let ?zero = "fresh_win\<lparr>base_font_size := 0\<rparr>"
  have x: "lower (splitext_ext ''/home/u/gone.epub'') = ''.epub''"
    by (simp add: lower_def lower_char_def splitext_ext_def basename_def)
  have p: "fitz sample_env ''/home/u/locked.pdf'' = FitzDoc ?doc"
    "fitz sample_env ''/home/u/missing.pdf'' = FitzRaises EngineError"
    "epub sample_env ''/home/u/gone.epub'' = ReadRaises EngineError"
    "epub ?env ''/home/u/gone.epub'' = Book [stylesheet, broken_item]"
    "extract_items [stylesheet, broken_item] = Some EngineError"
    by (simp_all add: sample_defs)
  have q: "load_pdf (fitz sample_env ''/home/u/damaged.pdf'') ([], False) pdf_win =
     Raised EngineError damaged_win"
    by (simp add: load_pdf_def sample_defs Let_def)
  have z: "open_file sample_env ''/home/u/story.EPUB'' ([], False) ?zero = Inl ZeroDivisionError"
    by (simp add: open_file_epub sample_exts load_epub_def sample_defs update_view_defs
          py_getitem_def Let_def)
  note t = open_failure_reported [where env = sample_env and s = pdf_win]
  from t [where path = "''/home/u/notes.txt''" and dlg = "([], False)"] sample_exts(7)
  have a: "open_file sample_env ''/home/u/notes.txt'' ([], False) pdf_win =
       Inr (pdf_win, Some Unsupported_file)"
    by simp
  from t [where path = "''/home/u/locked.pdf''" and dlg = "(''secret'', False)" and doc = ?doc]
    p sample_exts(3)
  have b: "\<exists>s'. open_file sample_env ''/home/u/locked.pdf'' (''secret'', False) pdf_win =
           Inr (s', Some Cancelled) \<and> pages s' = [] \<and> shown s' = ShowNoDocument"
    by simp
  from t [where path = "''/home/u/locked.pdf''" and dlg = "(''guess'', True)" and doc = ?doc]
    p sample_exts(3)
  have c: "\<exists>s'. open_file sample_env ''/home/u/locked.pdf'' (''guess'', True) pdf_win =
           Inr (s', Some Incorrect_password) \<and> pages s' = [] \<and> shown s' = ShowNoDocument"
    by simp
  from t [where path = "''/home/u/damaged.pdf''" and dlg = "([], False)" and e = EngineError
      and ?s1.0 = damaged_win] q sample_exts(2)
  have r: "open_file sample_env ''/home/u/damaged.pdf'' ([], False) pdf_win =
     Inr (damaged_win, Some (Failed_to_open EngineError))"
    by simp
  from t [where path = "''/home/u/missing.pdf''" and dlg = "([], False)" and e = EngineError]
    p sample_exts(4)
  have d: "\<exists>s'. open_file sample_env ''/home/u/missing.pdf'' ([], False) pdf_win =
           Inr (s', Some (Failed_to_open EngineError)) \<and> pages s' = []"
    by simp
  from t [where path = "''/home/u/gone.epub''" and dlg = "([], False)" and e = EngineError]
    p x
  have e: "\<exists>s'. open_file sample_env ''/home/u/gone.epub'' ([], False) pdf_win =
           Inr (s', Some (Failed_to_open EngineError)) \<and> pages s' = []"
    by simp
  from open_failure_reported [where env = ?env and s = pdf_win and path = "''/home/u/gone.epub''"
      and dlg = "([], False)" and e = EngineError and items = "[stylesheet, broken_item]"]
    p x
  have f: "\<exists>s'. open_file ?env ''/home/u/gone.epub'' ([], False) pdf_win =
           Inr (s', Some (Failed_to_open EngineError)) \<and> pages s' = []"
    by simp
  from open_failure_reported [where env = sample_env and s = ?zero
      and path = "''/home/u/story.EPUB''" and dlg = "([], False)" and e = ZeroDivisionError] z
  have g: "\<exists>s2. load_epub (epub sample_env ''/home/u/story.EPUB'') ?zero = Returned s2 None \<and>
      pages s2 \<noteq> []"
    by simp
  from a b c d e f g q r z x p(5) sample_exts(3,7) show ?thesis by blast
qed

text \<open>
  The specification's sentence for C4 does not hold for an unsupported extension: the
  three-page PDF that was open before is still the document afterwards.
\<close>

theorem unsupported_open_keeps_document_counterexample:
  "open_file sample_env ''/home/u/notes.txt'' ([], False) pdf_win =
     Inr (pdf_win, Some Unsupported_file) \<and>
   current_book_path pdf_win = Some ''/home/u/paper.pdf'' \<and>
   pages pdf_win = [PdfPage 0, PdfPage 1, PdfPage 2]"
  by (simp add: open_file_def sample_exts sample_defs Let_def)

text \<open>
  C10. A call of \<open>load_epub\<close> that returns leaves a non-empty page list. With no document
  item in the book the list is the one placeholder page; with document items that all
  parse it is their pages in order. \<open>open_file\<close> then ends on page index 0, which is valid,
  showing the first page (given a base font size other than 0, which
  \<open>_update_zoom_label\<close> divides by).
\<close>

theorem epub_open_never_empty:
  "(load_epub book s = Returned s1 m \<longrightarrow> pages s1 \<noteq> [] \<and> m = None) \<and>
   (extract_items items = None \<and> filter is_document items = [] \<longrightarrow>
      load_epub (Book items) s =
        Returned (s\<lparr>current_book_type := Some ''epub'',
                    pages := [HtmlPage ''<h3>No readable content found.</h3>''],
                    current_font_size := base_font_size s\<rparr>) None) \<and>
   (extract_items items = None \<and> filter is_document items \<noteq> [] \<and>
    list_all (\<lambda>it. \<not> isl (clean_html it)) (filter is_document items) \<longrightarrow>
      (\<exists>s'. load_epub (Book items) s = Returned s' None \<and>
            pages s' = map (\<lambda>it. HtmlPage (projr (clean_html it))) (filter is_document items))) \<and>
   (lower (splitext_ext path) = ''.epub'' \<and> load_epub (epub env path) s = Returned s1 m \<and>
    base_font_size s \<noteq> 0 \<longrightarrow>
      (\<exists>s'. open_file env path dlg s = Inr (s', None) \<and> pages s' = pages s1 \<and>
            current_index s' = 0 \<and> index_valid s' \<and>
            shown s' = ShowHtml (hd (pages s')) (current_font_size s')))"
proof (intro conjI impI)
  assume "load_epub book s = Returned s1 m"
  from load_epub_Returned [OF this] show "pages s1 \<noteq> []" by simp
next
  assume "load_epub book s = Returned s1 m"
  from load_epub_Returned [OF this] show "m = None" by simp
next
  assume "extract_items items = None \<and> filter is_document items = []"
  then show "load_epub (Book items) s =
        Returned (s\<lparr>current_book_type := Some ''epub'',
                    pages := [HtmlPage ''<h3>No readable content found.</h3>''],
                    current_font_size := base_font_size s\<rparr>) None"
    by (simp add: load_epub_def Let_def)
next
  assume a: "extract_items items = None \<and> filter is_document items \<noteq> [] \<and>
    list_all (\<lambda>it. \<not> isl (clean_html it)) (filter is_document items)"
  let ?s0 = "s\<lparr>current_book_type := Some ''epub'', pages := [],
               current_font_size := base_font_size s\<rparr>"
  from a load_epub_pages_returns [of "filter is_document items" ?s0] obtain sp where
    p: "load_epub_pages (filter is_document items) ?s0 = Returned sp None" by blast
  from load_epub_pages_Returned [OF p] have
    q: "pages sp = map (\<lambda>it. HtmlPage (projr (clean_html it))) (filter is_document items)"
    by simp
  with a have "pages sp \<noteq> []" by simp
  with a p have "load_epub (Book items) s = Returned sp None"
    by (simp add: load_epub_def Let_def)
  with q show "\<exists>s'. load_epub (Book items) s = Returned s' None \<and>
      pages s' = map (\<lambda>it. HtmlPage (projr (clean_html it))) (filter is_document items)"
    by blast
next
  assume a: "lower (splitext_ext path) = ''.epub'' \<and> load_epub (epub env path) s = Returned s1 m \<and>
    base_font_size s \<noteq> 0"
  then have l: "load_epub (epub env path) s = Returned s1 m" by simp
  from load_epub_Returned [OF l] have n: "pages s1 \<noteq> []" "m = None" by simp_all
  from load_epub_fields(1,2) [OF l] a
  have t: "current_book_type s1 = Some ''epub''" "base_font_size s1 \<noteq> 0" by simp_all
  let ?s = "s1\<lparr>current_book_path := Some path, current_book_title := basename path,
               current_index := 0\<rparr>"
  from n obtain p ps where c: "pages s1 = p # ps" by (cases "pages s1") auto
  then have u: "update_view ?s = Inr (?s\<lparr>shown := ShowHtml p (current_font_size s1)\<rparr>)"
    using t by (simp add: update_view_defs py_getitem_def)
  from a u n c show "\<exists>s'. open_file env path dlg s = Inr (s', None) \<and> pages s' = pages s1 \<and>
      current_index s' = 0 \<and> index_valid s' \<and>
      shown s' = ShowHtml (hd (pages s')) (current_font_size s')"
    by (simp add: open_file_epub index_valid_def)
qed

theorem epub_open_never_empty_witness:
  "extract_items [stylesheet] = None \<and> filter is_document [stylesheet] = [] \<and>
   base_font_size pdf_win \<noteq> 0 \<and>
   load_epub (epub sample_env ''/home/u/cover-only.epub'') pdf_win =
     Returned (pdf_win\<lparr>current_book_type := Some ''epub'',
                 pages := [HtmlPage ''<h3>No readable content found.</h3>''],
                 current_font_size := base_font_size pdf_win\<rparr>) None \<and>
   lower (splitext_ext ''/home/u/cover-only.epub'') = ''.epub'' \<and>
   (\<exists>s'. open_file sample_env ''/home/u/cover-only.epub'' ([], False) pdf_win = Inr (s', None) \<and>
         pages s' = [HtmlPage ''<h3>No readable content found.</h3>''] \<and>
         current_index s' = 0 \<and> index_valid s') \<and>
   (\<exists>s'. load_epub (Book [stylesheet, chapter_item ''<p>a</p>'']) pdf_win = Returned s' None \<and>
         pages s' = [HtmlPage ''<p>a</p>''])"
proof -
  have e: "epub sample_env ''/home/u/cover-only.epub'' = Book [stylesheet]"
    and z: "base_font_size pdf_win \<noteq> 0"
    by (simp_all add: sample_defs)
  have x: "extract_items [stylesheet] = None" "filter is_document [stylesheet] = []"
    "extract_items [stylesheet, chapter_item ''<p>a</p>''] = None"
    "filter is_document [stylesheet, chapter_item ''<p>a</p>''] = [chapter_item ''<p>a</p>'']"
    "clean_html (chapter_item ''<p>a</p>'') = Inr ''<p>a</p>''"
    by (simp_all add: sample_defs)
  note t = epub_open_never_empty [where s = pdf_win]
  from t [where items = "[stylesheet]"] x e
  have a: "load_epub (epub sample_env ''/home/u/cover-only.epub'') pdf_win =
     Returned (pdf_win\<lparr>current_book_type := Some ''epub'',
                 pages := [HtmlPage ''<h3>No readable content found.</h3>''],
                 current_font_size := base_font_size pdf_win\<rparr>) None"
    by simp
  from t [where path = "''/home/u/cover-only.epub''" and env = sample_env
      and dlg = "([], False)"
      and ?s1.0 = "pdf_win\<lparr>current_book_type := Some ''epub'',
                 pages := [HtmlPage ''<h3>No readable content found.</h3>''],
                 current_font_size := base_font_size pdf_win\<rparr>" and m = None] a sample_exts(6) z
  have b: "\<exists>s'. open_file sample_env ''/home/u/cover-only.epub'' ([], False) pdf_win =
         Inr (s', None) \<and>
         pages s' = [HtmlPage ''<h3>No readable content found.</h3>''] \<and>
         current_index s' = 0 \<and> index_valid s'"
    by auto
  from t [where items = "[stylesheet, chapter_item ''<p>a</p>'']"] x
  have c: "\<exists>s'. load_epub (Book [stylesheet, chapter_item ''<p>a</p>'']) pdf_win =
         Returned s' None \<and> pages s' = [HtmlPage ''<p>a</p>'']"
    by simp
  from a b c x(1,2) z sample_exts(6) show ?thesis by blast
qed

subsection \<open>Settings dialog\<close>

text \<open>
  C7. The font size does not stay in \<open>[8, 40]\<close>. The spin box of the settings dialog
  accepts sizes up to 48, and \<open>open_settings_dialog\<close> assigns the chosen size to
  \<open>current_font_size\<close> without the clamp the zoom handlers apply. With size 48 accepted the
  font size is 48; \<open>zoom_out\<close> then gives 47, still above 40, and \<open>zoom_in\<close> gives 40.
\<close>

theorem settings_font_size_beyond_bound:
  "get_values ''Segoe UI'' 48 0 0 =
     \<lparr>sv_font_family = ''Segoe UI'', sv_font_size = 48, sv_theme = ''light'',
      sv_language = ''en''\<rparr> \<and>
   font_in_range epub_win \<and>
   open_settings_dialog True (get_values ''Segoe UI'' 48 0 0) epub_win = Inr large_font_win \<and>
   current_font_size large_font_win = 48 \<and> \<not> font_in_range large_font_win \<and>
   zoom_out large_font_win =
     Inr (large_font_win\<lparr>current_font_size := 47,
            shown := ShowHtml (HtmlPage ''<p>two</p>'') 47\<rparr>) \<and>
   zoom_in large_font_win =
     Inr (large_font_win\<lparr>current_font_size := 40,
            shown := ShowHtml (HtmlPage ''<p>two</p>'') 40\<rparr>)"
  by (simp add: get_values_def open_settings_dialog_def update_view_defs py_getitem_def
        zoom_in_def zoom_out_def zoom_in_state_def zoom_out_state_def font_in_range_def
        sample_defs Let_def)

subsection \<open>Zooming from a large base font size\<close>

text \<open>
  C6. The zoom handlers do not always leave the font size in \<open>[8, 40]\<close>. \<open>zoom_out\<close>
  clamps from below only and \<open>zoom_in\<close> from above only, and \<open>load_epub\<close> starts an EPUB
  at the base font size, which the settings allow up to 48. Started with
  \<open>font_size = 48\<close> in the settings file and with \<open>story.EPUB\<close> opened, the font size is
  48, and \<open>zoom_out\<close> leaves 47.
\<close>

theorem zoom_out_leaves_font_size_above_bound:
  "init_win ''en'' ''light'' ''Segoe UI'' 48 = Inr start48_win \<and>
   open_file sample_env ''/home/u/story.EPUB'' ([], False) start48_win = Inr (story48_win, None) \<and>
   current_font_size story48_win = 48 \<and>
   zoom_out story48_win =
     Inr (story48_win\<lparr>current_font_size := 47,
            shown := ShowHtml (HtmlPage ''<p>a</p>'') 47\<rparr>) \<and>
   \<not> font_in_range (story48_win\<lparr>current_font_size := 47,
            shown := ShowHtml (HtmlPage ''<p>a</p>'') 47\<rparr>)"
  by (simp add: init_win_def open_file_epub
        sample_exts load_epub_def sample_defs update_view_defs py_getitem_def basename_def
        zoom_out_def zoom_out_state_def font_in_range_def Let_def)

end
